theory Spec2Isabelle
  imports Complex_Main "HOL-Library.AList"
begin

section \<open>Data model (models.py)\<close>

text \<open>
  The pydantic models become records. Record fields are global constants in HOL, so each
  field carries a short prefix naming its class (\<open>vm_\<close> for VideoMetadata, \<open>h_\<close> for
  HighlightClip, \<open>p_\<close> for ContentPost, \<open>cp_\<close> for ContentPlan, \<open>ps_\<close> for
  ProcessingStatus); after the prefix the name is the source's. Python floats are
  modelled as \<open>real\<close> numbers (no NaN or infinity; the float operations on them are
  parameters of the model, see \<open>capabilities\<close>), \<open>Optional[T]\<close> as
  \<open>T option\<close>, and \<open>str\<close> as \<open>string\<close>.
\<close>

record VideoMetadata =
  vm_id :: string
  vm_title :: string
  vm_description :: "string option"
  vm_original_filename :: string
  vm_upload_path :: string
  vm_file_type :: string
  vm_upload_date :: string
  vm_processing_status :: string
  vm_error_message :: "string option"
  vm_duration :: "real option"
  vm_frames :: "int option"
  vm_highlights_count :: "nat option"
  vm_content_plan_path :: "string option"

record HighlightClip =
  h_id :: string
  h_video_id :: string
  h_title :: string
  h_description :: "string option"
  h_start_time :: real
  h_end_time :: real
  h_clip_path :: string
  h_subtitle_path :: "string option"
  h_thumbnail_path :: "string option"

record ContentPost =
  p_clip_id :: string
  p_title :: string
  p_caption :: string
  p_platform :: string
  p_suggested_posting_date :: "string option"
  p_hashtags :: "string list"

record ContentPlan =
  cp_video_id :: string
  cp_title :: string
  cp_generated_date :: string
  cp_posts :: "ContentPost list"

record ProcessingStatus =
  ps_video_id :: string
  ps_status :: string

section \<open>Exceptions and responses\<close>

text \<open>
  Python exceptions are values. \<open>CapabilityError\<close> stands for whatever the media library
  or the inference client raises, \<open>ValidationError\<close> for pydantic's rejection of a
  field value; \<open>str_exn\<close> is Python's \<open>str(e)\<close>. An endpoint answers
  with its value, with an \<open>HTTPException\<close> (status code and detail), or lets an
  exception escape (\<open>Uncaught\<close>).
\<close>

datatype exn =
    FileNotFoundError string
  | KeyError string
  | ValueError string
  | AttributeError string
  | TypeError string
  | ValidationError string
  | CapabilityError string

fun str_exn :: "exn \<Rightarrow> string" where
  "str_exn (FileNotFoundError m) = m"
| "str_exn (KeyError k) = [CHR 0x27] @ k @ [CHR 0x27]"
| "str_exn (ValueError m) = m"
| "str_exn (AttributeError m) = m"
| "str_exn (TypeError m) = m"
| "str_exn (ValidationError m) = m"
| "str_exn (CapabilityError m) = m"

datatype response_error = HTTPException nat string | Uncaught exn

section \<open>The registry, the file system and the call log\<close>

text \<open>
  The four module-level dicts of main.py are association lists with distinct keys, in
  insertion order as a Python dict keeps it: \<open>d[k] = v\<close> is \<open>AList.update k v\<close> (in
  place for a known key, appended for a new one), \<open>del d[k]\<close> is \<open>AList.delete k\<close>,
  \<open>k in d\<close> is \<open>map_of d k \<noteq> None\<close>, \<open>d.values()\<close> is \<open>map snd\<close>.
\<close>

record registry =
  videos_db :: "(string \<times> VideoMetadata) list"
  highlights_db :: "(string \<times> HighlightClip) list"
  content_plans_db :: "(string \<times> ContentPlan) list"
  processing_status_db :: "(string \<times> ProcessingStatus) list"

text \<open>
  Calls made to the external collaborators, recorded in order. \<open>PlanInference\<close> is the
  call \<open>model.generate_content(prompt)\<close> of \<open>generate_content_plan\<close>, tagged with the
  highlights the prompt is built from.
\<close>

datatype call =
    VideoFileClip string
  | AnalyzeVideo string
  | ExtractClip real real string
  | ExtractThumbnail real string
  | GenerateSubtitles string
  | PlanInference "HighlightClip list"

text \<open>
  The world a handler runs in: the registry, the paths that exist on disk, how many
  identifiers \<open>uuid.uuid4()\<close> has handed out, the call log, the background tasks queued
  by \<open>background_tasks.add_task\<close>, and \<open>status_writes\<close>: for every assignment
  \<open>processing_status_db[video_id] = ProcessingStatus(...)\<close> the record written together
  with the registry right after the assignment (what a poller can observe at that point).
\<close>

record world =
  reg :: registry
  files :: "string set"
  uuid_count :: nat
  calls :: "call list"
  tasks :: "(string \<times> string) list"
  status_writes :: "(ProcessingStatus \<times> registry) list"

definition empty_registry :: registry where
  "empty_registry = \<lparr>videos_db = [], highlights_db = [], content_plans_db = [],
     processing_status_db = []\<rparr>"

definition empty_world :: world where
  "empty_world = \<lparr>reg = empty_registry, files = {}, uuid_count = 0, calls = [], tasks = [],
     status_writes = []\<rparr>"

definition log_call :: "call \<Rightarrow> world \<Rightarrow> world" where
  "log_call c w = w\<lparr>calls := calls w @ [c]\<rparr>"

definition write_file :: "string \<Rightarrow> world \<Rightarrow> world" where
  "write_file p w = w\<lparr>files := insert p (files w)\<rparr>"

definition set_status :: "string \<Rightarrow> string \<Rightarrow> world \<Rightarrow> world" where
  "set_status video_id tag w =
     (let p = \<lparr>ps_video_id = video_id, ps_status = tag\<rparr>;
          r = (reg w)\<lparr>processing_status_db :=
                 AList.update video_id p (processing_status_db (reg w))\<rparr>
      in w\<lparr>reg := r, status_writes := status_writes w @ [(p, r)]\<rparr>)"

text \<open>\<open>videos_db[video_id].field = value\<close>: a KeyError when the Job is not in the map.\<close>

definition update_video ::
  "string \<Rightarrow> (VideoMetadata \<Rightarrow> VideoMetadata) \<Rightarrow> world \<Rightarrow> exn + world" where
  "update_video video_id f w =
     (case map_of (videos_db (reg w)) video_id of
        None \<Rightarrow> Inl (KeyError video_id)
      | Some v \<Rightarrow>
          Inr (w\<lparr>reg := (reg w)\<lparr>videos_db :=
                 AList.update video_id (f v) (videos_db (reg w))\<rparr>\<rparr>))"

section \<open>Formatting helpers\<close>

text \<open>\<open>str(n)\<close> for a natural number, as the f-strings of the source render it.\<close>

fun str_nat :: "nat \<Rightarrow> string" where
  "str_nat n =
     (if n < 10 then [''0123456789'' ! n]
      else str_nat (n div 10) @ [''0123456789'' ! (n mod 10)])"

declare str_nat.simps [simp del]

text \<open>\<open>f"{x}"\<close> for an \<open>Optional[str]\<close>: \<open>None\<close> renders as the text None.\<close>

definition fmt_opt :: "string option \<Rightarrow> string" where
  "fmt_opt s = (case s of None \<Rightarrow> ''None'' | Some t \<Rightarrow> t)"

text \<open>\<open>int(x)\<close> on a float truncates towards zero.\<close>

definition py_int :: "real \<Rightarrow> int" where
  "py_int x = (if 0 \<le> x then \<lfloor>x\<rfloor> else \<lceil>x\<rceil>)"

section \<open>External collaborators\<close>

text \<open>
  What the inference service returns for a video: the parsed JSON object, whose
  \<open>highlighted_moments\<close> key may be absent, and whose items may lack any field.
\<close>

record moment =
  m_start_time :: "real option"
  m_end_time :: "real option"
  m_title :: "string option"
  m_description :: "string option"

type_synonym analysis_result = "moment list option"

text \<open>
  What the content-plan model answers, as \<open>generate_content_plan\<close> reads it.

  A field of a response item is absent (\<open>item.get\<close> gives the default), holds a value
  that the \<open>ContentPost\<close> model accepts, or holds one that it rejects (pydantic raises a
  \<open>ValidationError\<close>, which the source does not catch). \<open>suggested_posting_date\<close> is
  optional in \<open>ContentPost\<close>, so \<open>null\<close> is an accepted value of it.
\<close>

datatype 'a field = Absent | Valid 'a | Invalid

record plan_item =
  i_title :: "string field"
  i_caption :: "string field"
  i_platform :: "string field"
  i_suggested_posting_date :: "string option field"
  i_hashtags :: "string list field"

text \<open>
  An element of the \<open>content_plan\<close> value is a JSON object, or anything else (on which
  \<open>item.get\<close> raises \<open>AttributeError\<close>). The value itself is something
  \<open>enumerate\<close> can iterate, read as the sequence of its elements (a JSON array; also a
  string or an object, whose characters or keys are elements that are not objects), or
  it is not iterable (\<open>null\<close>, a number, a boolean: \<open>enumerate\<close> raises
  \<open>TypeError\<close>).
\<close>

datatype json_item = ItemObject plan_item | ItemNotObject

datatype plan_value = PlanItems "json_item list" | PlanNotIterable

text \<open>
  The response as a whole: its text cannot be read or decoded (\<open>JSONDecodeError\<close>, or a
  \<open>KeyError\<close> or \<open>IndexError\<close> on the way: the exceptions the source catches); it is
  JSON but not an object (so that \<open>parsed_plan.get\<close> raises \<open>AttributeError\<close>, which
  the source does not catch; the model keeps only the attribute's name as message); or
  it is an object, with the value of its \<open>content_plan\<close> key when the key is present.
\<close>

datatype plan_reply = NotJson | JsonNotObject | JsonObject "plan_value option"

text \<open>
  The collaborators are parameters of the model: the identifier generator, the clock
  (\<open>date_after n\<close> is \<open>(datetime.now() + timedelta(days=n)).strftime("%Y-%m-%d")\<close>), the
  media library (\<open>video_file_clip\<close> gives duration and fps, the two writers give the
  exception they raise, if any) and the three inference calls. The operations of
  Python's float arithmetic that the code applies (to times, and to fps and duration for
  the frame count) are parameters as well, so that no statement depends on how they
  round.
\<close>

record capabilities =
  uuid4 :: "nat \<Rightarrow> string"
  now_isoformat :: string
  date_after :: "nat \<Rightarrow> string"
  video_file_clip :: "string \<Rightarrow> exn + (real \<times> real)"
  analyze_video :: "string \<Rightarrow> exn + analysis_result"
  write_videofile :: "real \<Rightarrow> real \<Rightarrow> string \<Rightarrow> exn option"
  save_frame :: "real \<Rightarrow> string \<Rightarrow> exn option"
  generate_subtitles :: "string \<Rightarrow> exn + string"
  plan_model :: "HighlightClip list \<Rightarrow> exn + plan_reply"
  float_add :: "real \<Rightarrow> real \<Rightarrow> real"
  float_sub :: "real \<Rightarrow> real \<Rightarrow> real"
  float_div :: "real \<Rightarrow> real \<Rightarrow> real"
  float_mul :: "real \<Rightarrow> real \<Rightarrow> real"

section \<open>Media processing (video_processor.py)\<close>

text \<open>
  \<open>VideoProcessor(video_path)\<close>: the constructor checks that the file exists, then opens
  it. The processor is represented by what the clip reports: duration and fps.
\<close>

definition VideoProcessor_init ::
  "capabilities \<Rightarrow> string \<Rightarrow> world \<Rightarrow> (exn + (real \<times> real)) \<times> world" where
  "VideoProcessor_init caps video_path w =
     (if video_path \<notin> files w
      then (Inl (FileNotFoundError (''Video file not found: '' @ video_path)), w)
      else (video_file_clip caps video_path, log_call (VideoFileClip video_path) w))"

definition get_duration :: "real \<times> real \<Rightarrow> real" where
  "get_duration processor = fst processor"

definition get_frame_count :: "capabilities \<Rightarrow> real \<times> real \<Rightarrow> int" where
  "get_frame_count caps processor = py_int (float_mul caps (snd processor) (fst processor))"

definition extract_clip ::
  "capabilities \<Rightarrow> real \<Rightarrow> real \<Rightarrow> string \<Rightarrow> world \<Rightarrow> exn option \<times> world" where
  "extract_clip caps start_time end_time output_path w =
     (let w1 = log_call (ExtractClip start_time end_time output_path) w
      in case write_videofile caps start_time end_time output_path of
           Some e \<Rightarrow> (Some e, w1)
         | None \<Rightarrow> (None, write_file output_path w1))"

definition extract_thumbnail ::
  "capabilities \<Rightarrow> real \<Rightarrow> string \<Rightarrow> world \<Rightarrow> exn option \<times> world" where
  "extract_thumbnail caps time output_path w =
     (let w1 = log_call (ExtractThumbnail time output_path) w
      in case save_frame caps time output_path of
           Some e \<Rightarrow> (Some e, w1)
         | None \<Rightarrow> (None, write_file output_path w1))"

section \<open>Content-plan generation (ai_analyzer.py)\<close>

text \<open>\<open>item.get(key, default)\<close> for a field that \<open>ContentPost\<close> does not reject.\<close>

definition field_or :: "'a \<Rightarrow> 'a field \<Rightarrow> 'a" where
  "field_or fallback f = (case f of Valid x \<Rightarrow> x | _ \<Rightarrow> fallback)"

definition acceptable :: "plan_item \<Rightarrow> bool" where
  "acceptable item =
     (i_title item \<noteq> Invalid \<and> i_caption item \<noteq> Invalid \<and> i_platform item \<noteq> Invalid
        \<and> i_suggested_posting_date item \<noteq> Invalid \<and> i_hashtags item \<noteq> Invalid)"

text \<open>
  The post built from a response item, in the branch where the response parsed:
  \<open>ContentPost(...)\<close> raises when a field value is rejected.
\<close>

definition item_post ::
  "capabilities \<Rightarrow> nat \<Rightarrow> HighlightClip \<Rightarrow> plan_item \<Rightarrow> exn + ContentPost" where
  "item_post caps i highlight item =
     (if \<not> acceptable item then Inl (ValidationError ''ContentPost'')
      else Inr
        \<lparr>p_clip_id = h_id highlight,
         p_title = field_or (h_title highlight) (i_title item),
         p_caption = field_or ''Check out this highlight!'' (i_caption item),
         p_platform = field_or ''Instagram'' (i_platform item),
         p_suggested_posting_date =
           field_or (Some (date_after caps (i + 1))) (i_suggested_posting_date item),
         p_hashtags = field_or [''video'', ''highlights'', ''content''] (i_hashtags item)\<rparr>)"

text \<open>
  \<open>for i, item in enumerate(plan_items): if i >= len(highlights): break; ...\<close>: the
  \<open>break\<close> comes before the item is looked at; an exception in the body leaves the
  loop and the function.
\<close>

fun item_posts ::
  "capabilities \<Rightarrow> HighlightClip list \<Rightarrow> nat \<Rightarrow> json_item list \<Rightarrow> exn + ContentPost list"
  where
  "item_posts caps highlights i [] = Inr []"
| "item_posts caps highlights i (item # plan_items) =
     (if i \<ge> length highlights then Inr []
      else case item of
             ItemNotObject \<Rightarrow> Inl (AttributeError ''get'')
           | ItemObject obj \<Rightarrow>
               (case item_post caps i (highlights ! i) obj of
                  Inl e \<Rightarrow> Inl e
                | Inr post \<Rightarrow>
                    (case item_posts caps highlights (Suc i) plan_items of
                       Inl e \<Rightarrow> Inl e
                     | Inr posts \<Rightarrow> Inr (post # posts))))"

text \<open>The post synthesized for a highlight in the \<open>except\<close> branch.\<close>

definition basic_post :: "capabilities \<Rightarrow> nat \<Rightarrow> HighlightClip \<Rightarrow> ContentPost" where
  "basic_post caps i highlight =
     \<lparr>p_clip_id = h_id highlight,
      p_title = ''Highlight '' @ str_nat (i + 1) @ '': '' @ h_title highlight,
      p_caption = ''Check out this amazing highlight from our video! ''
                    @ fmt_opt (h_description highlight),
      p_platform = (if i mod 2 = 0 then ''Instagram'' else ''YouTube''),
      p_suggested_posting_date = Some (date_after caps (i + 1)),
      p_hashtags = [''video'', ''highlights'', ''content'', ''part'' @ str_nat (i + 1)]\<rparr>"

fun basic_posts :: "capabilities \<Rightarrow> nat \<Rightarrow> HighlightClip list \<Rightarrow> ContentPost list" where
  "basic_posts caps i [] = []"
| "basic_posts caps i (highlight # highlights) =
     basic_post caps i highlight # basic_posts caps (Suc i) highlights"

definition new_plan :: "capabilities \<Rightarrow> HighlightClip list \<Rightarrow> ContentPost list \<Rightarrow> ContentPlan" where
  "new_plan caps highlights posts =
     \<lparr>cp_video_id = h_video_id (hd highlights),
      cp_title = ''Content Plan for '' @ str_nat (length highlights) @ '' Highlights'',
      cp_generated_date = now_isoformat caps,
      cp_posts = posts\<rparr>"

text \<open>
  \<open>generate_content_plan\<close>: the empty list is rejected before the model is called
  (\<open>hd highlights\<close> is therefore only taken of a non-empty list); a failing call
  propagates; text that cannot be decoded gives the basic plan; a JSON object gives the
  posts of its items (none when the key is absent), or the exception that reading the
  items raises.
\<close>

definition generate_content_plan ::
  "capabilities \<Rightarrow> HighlightClip list \<Rightarrow> world \<Rightarrow> (exn + ContentPlan) \<times> world" where
  "generate_content_plan caps highlights w =
     (if highlights = []
      then (Inl (ValueError ''No highlights provided for content plan generation''), w)
      else
        let w1 = log_call (PlanInference highlights) w
        in case plan_model caps highlights of
             Inl e \<Rightarrow> (Inl e, w1)
           | Inr NotJson \<Rightarrow>
               (Inr (new_plan caps highlights (basic_posts caps 0 highlights)), w1)
           | Inr JsonNotObject \<Rightarrow>
               (Inl (AttributeError ''get''), w1)
           | Inr (JsonObject content_plan) \<Rightarrow>
               (case content_plan of
                  None \<Rightarrow> (Inr (new_plan caps highlights []), w1)
                | Some PlanNotIterable \<Rightarrow> (Inl (TypeError ''object is not iterable''), w1)
                | Some (PlanItems plan_items) \<Rightarrow>
                    (case item_posts caps highlights 0 plan_items of
                       Inl e \<Rightarrow> (Inl e, w1)
                     | Inr posts \<Rightarrow> (Inr (new_plan caps highlights posts), w1))))"

section \<open>The background task (main.py, process_video)\<close>

text \<open>
  One iteration of the loop over \<open>enumerate(highlights)\<close>: a fresh identifier, the clip,
  the thumbnail, the subtitles, the HighlightClip, and its registration. An exception
  leaves the world as it was when raised.
\<close>

definition extract_one ::
  "capabilities \<Rightarrow> string \<Rightarrow> nat \<Rightarrow> moment \<Rightarrow> world \<Rightarrow> (exn + HighlightClip) \<times> world" where
  "extract_one caps video_id i highlight w =
     (let highlight_id = uuid4 caps (uuid_count w);
          w1 = w\<lparr>uuid_count := Suc (uuid_count w)\<rparr>;
          clip_path = ''clips/'' @ video_id @ ''_highlight_'' @ str_nat i @ ''.mp4'';
          start_time = (case m_start_time highlight of None \<Rightarrow> 0 | Some t \<Rightarrow> t);
          end_time = (case m_end_time highlight of None \<Rightarrow> 0 | Some t \<Rightarrow> t)
      in case extract_clip caps start_time end_time clip_path w1 of
           (Some e, w2) \<Rightarrow> (Inl e, w2)
         | (None, w2) \<Rightarrow>
             (let thumbnail_path = ''thumbnails/'' @ highlight_id @ ''.jpg'';
                  thumbnail_time =
                    float_add caps start_time
                      (float_div caps (float_sub caps end_time start_time) 2)
              in case extract_thumbnail caps thumbnail_time thumbnail_path w2 of
                   (Some e, w3) \<Rightarrow> (Inl e, w3)
                 | (None, w3) \<Rightarrow>
                     (let subtitle_path = ''subtitles/'' @ highlight_id @ ''.vtt'';
                          w4 = log_call (GenerateSubtitles clip_path) w3
                      in case generate_subtitles caps clip_path of
                           Inl e \<Rightarrow> (Inl e, w4)
                         | Inr subtitles \<Rightarrow>
                             (let w5 = write_file subtitle_path w4;
                                  highlight_clip =
                                    \<lparr>h_id = highlight_id,
                                     h_video_id = video_id,
                                     h_title = (case m_title highlight of
                                                  None \<Rightarrow> ''Highlight '' @ str_nat (i + 1)
                                                | Some t \<Rightarrow> t),
                                     h_description =
                                       Some (case m_description highlight of
                                               None \<Rightarrow> [] | Some d \<Rightarrow> d),
                                     h_start_time = start_time,
                                     h_end_time = end_time,
                                     h_clip_path = clip_path,
                                     h_subtitle_path = Some subtitle_path,
                                     h_thumbnail_path = Some thumbnail_path\<rparr>
                              in (Inr highlight_clip,
                                  w5\<lparr>reg := (reg w5)\<lparr>highlights_db :=
                                        AList.update highlight_id highlight_clip
                                          (highlights_db (reg w5))\<rparr>\<rparr>)))))"

fun extract_loop ::
  "capabilities \<Rightarrow> string \<Rightarrow> nat \<Rightarrow> moment list \<Rightarrow> HighlightClip list \<Rightarrow> world
     \<Rightarrow> (exn + HighlightClip list) \<times> world" where
  "extract_loop caps video_id i [] highlight_clips w = (Inr highlight_clips, w)"
| "extract_loop caps video_id i (highlight # highlights) highlight_clips w =
     (case extract_one caps video_id i highlight w of
        (Inl e, w1) \<Rightarrow> (Inl e, w1)
      | (Inr highlight_clip, w1) \<Rightarrow>
          extract_loop caps video_id (Suc i) highlights
            (highlight_clips @ [highlight_clip]) w1)"

text \<open>The stages of the \<open>try\<close> block, last first; each starts right after a status write.\<close>

definition plan_stage ::
  "capabilities \<Rightarrow> string \<Rightarrow> HighlightClip list \<Rightarrow> world \<Rightarrow> exn option \<times> world" where
  "plan_stage caps video_id highlight_clips w =
     (case generate_content_plan caps highlight_clips w of
        (Inl e, w1) \<Rightarrow> (Some e, w1)
      | (Inr content_plan, w1) \<Rightarrow>
          (let w2 = w1\<lparr>reg := (reg w1)\<lparr>content_plans_db :=
                      AList.update video_id content_plan (content_plans_db (reg w1))\<rparr>\<rparr>;
               content_plan_path = ''content_plans/'' @ video_id @ ''_content_plan.json''
           in case update_video video_id
                     (\<lambda>v. v\<lparr>vm_content_plan_path := Some content_plan_path,
                             vm_highlights_count := Some (length highlight_clips),
                             vm_processing_status := ''COMPLETED''\<rparr>) w2 of
                Inl e \<Rightarrow> (Some e, w2)
              | Inr w3 \<Rightarrow> (None, set_status video_id ''COMPLETED'' w3)))"

definition extraction_stage ::
  "capabilities \<Rightarrow> string \<Rightarrow> analysis_result \<Rightarrow> world \<Rightarrow> exn option \<times> world" where
  "extraction_stage caps video_id analysis w =
     (let highlights = (case analysis of None \<Rightarrow> [] | Some ms \<Rightarrow> ms)
      in case extract_loop caps video_id 0 highlights [] w of
           (Inl e, w1) \<Rightarrow> (Some e, w1)
         | (Inr highlight_clips, w1) \<Rightarrow>
             plan_stage caps video_id highlight_clips
               (set_status video_id ''GENERATING_CONTENT_PLAN'' w1))"

definition analysis_stage ::
  "capabilities \<Rightarrow> string \<Rightarrow> string \<Rightarrow> world \<Rightarrow> exn option \<times> world" where
  "analysis_stage caps video_id file_path w =
     (let w1 = log_call (AnalyzeVideo file_path) w
      in case analyze_video caps file_path of
           Inl e \<Rightarrow> (Some e, w1)
         | Inr analysis \<Rightarrow>
             extraction_stage caps video_id analysis
               (set_status video_id ''EXTRACTING_HIGHLIGHTS'' w1))"

definition metadata_stage ::
  "capabilities \<Rightarrow> string \<Rightarrow> string \<Rightarrow> world \<Rightarrow> exn option \<times> world" where
  "metadata_stage caps video_id file_path w =
     (case VideoProcessor_init caps file_path w of
        (Inl e, w1) \<Rightarrow> (Some e, w1)
      | (Inr processor, w1) \<Rightarrow>
          (case update_video video_id
                  (\<lambda>v. v\<lparr>vm_duration := Some (get_duration processor),
                          vm_frames := Some (get_frame_count caps processor),
                          vm_processing_status := ''PROCESSING''\<rparr>) w1 of
             Inl e \<Rightarrow> (Some e, w1)
           | Inr w2 \<Rightarrow>
               analysis_stage caps video_id file_path (set_status video_id ''ANALYZING'' w2)))"

definition try_block ::
  "capabilities \<Rightarrow> string \<Rightarrow> string \<Rightarrow> world \<Rightarrow> exn option \<times> world" where
  "try_block caps video_id file_path w =
     metadata_stage caps video_id file_path (set_status video_id ''PROCESSING'' w)"

text \<open>
  \<open>process_video\<close>: the \<open>try\<close> block, and the handler of \<open>except Exception\<close>. The result
  names the exception that escapes the task, if any: the handler itself raises KeyError
  when the Job is no longer in \<open>videos_db\<close>.
\<close>

definition process_video ::
  "capabilities \<Rightarrow> string \<Rightarrow> string \<Rightarrow> world \<Rightarrow> exn option \<times> world" where
  "process_video caps video_id file_path w =
     (case try_block caps video_id file_path w of
        (None, w1) \<Rightarrow> (None, w1)
      | (Some e, w1) \<Rightarrow>
          (case update_video video_id
                  (\<lambda>v. v\<lparr>vm_processing_status := ''ERROR'',
                          vm_error_message := Some (str_exn e)\<rparr>) w1 of
             Inl e2 \<Rightarrow> (Some e2, w1)
           | Inr w2 \<Rightarrow> (None, set_status video_id ''ERROR'' w2)))"

section \<open>The endpoints (main.py)\<close>

text \<open>
  An endpoint returns its answer and the world it leaves. \<open>upload_video\<close>:
  \<open>file.content_type\<close> is optional in the framework, and \<open>None\<close> is not in the list.
  The background task is queued, not run.
\<close>

definition allowed_types :: "string list" where
  "allowed_types = [''video/mp4'', ''video/quicktime'', ''video/x-msvideo'']"

definition invalid_file_type :: response_error where
  "invalid_file_type =
     HTTPException 400 ''Invalid file type. Only MP4, MOV, and AVI files are supported.''"

definition upload_video ::
  "capabilities \<Rightarrow> string option \<Rightarrow> string \<Rightarrow> string \<Rightarrow> string option \<Rightarrow> world
     \<Rightarrow> (response_error + VideoMetadata) \<times> world" where
  "upload_video caps content_type filename title description w =
     (case content_type of
        None \<Rightarrow> (Inl invalid_file_type, w)
      | Some ct \<Rightarrow>
          if ct \<notin> set allowed_types then (Inl invalid_file_type, w)
          else
            (let video_id = uuid4 caps (uuid_count w);
                 w1 = w\<lparr>uuid_count := Suc (uuid_count w)\<rparr>;
                 file_path = ''uploads/'' @ video_id @ ''_'' @ filename;
                 w2 = write_file file_path w1;
                 video_metadata =
                   \<lparr>vm_id = video_id,
                    vm_title = title,
                    vm_description = description,
                    vm_original_filename = filename,
                    vm_upload_path = file_path,
                    vm_file_type = ct,
                    vm_upload_date = now_isoformat caps,
                    vm_processing_status = ''PROCESSING'',
                    vm_error_message = None,
                    vm_duration = None,
                    vm_frames = None,
                    vm_highlights_count = None,
                    vm_content_plan_path = None\<rparr>;
                 w3 = w2\<lparr>reg := (reg w2)\<lparr>videos_db :=
                         AList.update video_id video_metadata (videos_db (reg w2))\<rparr>\<rparr>;
                 w4 = w3\<lparr>tasks := tasks w3 @ [(video_id, file_path)]\<rparr>
             in (Inr video_metadata, w4)))"

definition not_found :: "string \<Rightarrow> response_error" where
  "not_found detail = HTTPException 404 detail"

definition get_processing_status :: "world \<Rightarrow> string \<Rightarrow> response_error + ProcessingStatus" where
  "get_processing_status w video_id =
     (case map_of (processing_status_db (reg w)) video_id of
        None \<Rightarrow> Inl (not_found ''Video not found'')
      | Some p \<Rightarrow> Inr p)"

definition get_video :: "world \<Rightarrow> string \<Rightarrow> response_error + VideoMetadata" where
  "get_video w video_id =
     (case map_of (videos_db (reg w)) video_id of
        None \<Rightarrow> Inl (not_found ''Video not found'')
      | Some v \<Rightarrow> Inr v)"

definition get_videos :: "world \<Rightarrow> VideoMetadata list" where
  "get_videos w = map snd (videos_db (reg w))"

text \<open>\<open>[h for h in highlights_db.values() if h.video_id == video_id]\<close>\<close>

definition highlights_of :: "registry \<Rightarrow> string \<Rightarrow> HighlightClip list" where
  "highlights_of r video_id =
     filter (\<lambda>h. h_video_id h = video_id) (map snd (highlights_db r))"

definition get_highlights :: "world \<Rightarrow> string \<Rightarrow> response_error + HighlightClip list" where
  "get_highlights w video_id =
     (if map_of (videos_db (reg w)) video_id = None
      then Inl (not_found ''Video not found'')
      else Inr (highlights_of (reg w) video_id))"

definition get_content_plan :: "world \<Rightarrow> string \<Rightarrow> response_error + ContentPlan" where
  "get_content_plan w video_id =
     (if map_of (videos_db (reg w)) video_id = None
      then Inl (not_found ''Video not found'')
      else case map_of (content_plans_db (reg w)) video_id of
             None \<Rightarrow> Inl (not_found ''Content plan not found'')
           | Some plan \<Rightarrow> Inr plan)"

text \<open>
  \<open>os.remove\<close> raises on a missing path; \<open>delete_video\<close> guards every call with
  \<open>os.path.exists\<close>. An optional path is removed only when it is truthy (neither
  \<open>None\<close> nor empty).
\<close>

definition os_remove :: "string \<Rightarrow> world \<Rightarrow> exn option \<times> world" where
  "os_remove path w =
     (if path \<in> files w then (None, w\<lparr>files := files w - {path}\<rparr>)
      else (Some (FileNotFoundError path), w))"

definition remove_if_exists :: "string \<Rightarrow> world \<Rightarrow> exn option \<times> world" where
  "remove_if_exists path w = (if path \<in> files w then os_remove path w else (None, w))"

definition remove_optional :: "string option \<Rightarrow> world \<Rightarrow> exn option \<times> world" where
  "remove_optional path w =
     (case path of
        None \<Rightarrow> (None, w)
      | Some p \<Rightarrow> if p \<noteq> [] \<and> p \<in> files w then os_remove p w else (None, w))"

text \<open>The body of \<open>for highlight in highlights\<close>.\<close>

definition delete_highlight :: "HighlightClip \<Rightarrow> world \<Rightarrow> exn option \<times> world" where
  "delete_highlight highlight w =
     (case remove_if_exists (h_clip_path highlight) w of
        (Some e, w1) \<Rightarrow> (Some e, w1)
      | (None, w1) \<Rightarrow>
          (case remove_optional (h_thumbnail_path highlight) w1 of
             (Some e, w2) \<Rightarrow> (Some e, w2)
           | (None, w2) \<Rightarrow>
               (case remove_optional (h_subtitle_path highlight) w2 of
                  (Some e, w3) \<Rightarrow> (Some e, w3)
                | (None, w3) \<Rightarrow>
                    (None,
                     if map_of (highlights_db (reg w3)) (h_id highlight) \<noteq> None
                     then w3\<lparr>reg := (reg w3)\<lparr>highlights_db :=
                             AList.delete (h_id highlight) (highlights_db (reg w3))\<rparr>\<rparr>
                     else w3))))"

fun delete_highlights :: "HighlightClip list \<Rightarrow> world \<Rightarrow> exn option \<times> world" where
  "delete_highlights [] w = (None, w)"
| "delete_highlights (highlight # highlights) w =
     (case delete_highlight highlight w of
        (Some e, w1) \<Rightarrow> (Some e, w1)
      | (None, w1) \<Rightarrow> delete_highlights highlights w1)"

text \<open>The three registry deletions that end \<open>delete_video\<close>.\<close>

definition drop_job :: "string \<Rightarrow> registry \<Rightarrow> registry" where
  "drop_job video_id r =
     (let r1 = (if map_of (content_plans_db r) video_id \<noteq> None
                then r\<lparr>content_plans_db := AList.delete video_id (content_plans_db r)\<rparr>
                else r);
          r2 = r1\<lparr>videos_db := AList.delete video_id (videos_db r1)\<rparr>
      in if map_of (processing_status_db r2) video_id \<noteq> None
         then r2\<lparr>processing_status_db := AList.delete video_id (processing_status_db r2)\<rparr>
         else r2)"

definition delete_video :: "world \<Rightarrow> string \<Rightarrow> (response_error + string) \<times> world" where
  "delete_video w video_id =
     (case map_of (videos_db (reg w)) video_id of
        None \<Rightarrow> (Inl (not_found ''Video not found''), w)
      | Some video \<Rightarrow>
          (case remove_if_exists (vm_upload_path video) w of
             (Some e, w1) \<Rightarrow> (Inl (Uncaught e), w1)
           | (None, w1) \<Rightarrow>
               (case delete_highlights (highlights_of (reg w1) video_id) w1 of
                  (Some e, w2) \<Rightarrow> (Inl (Uncaught e), w2)
                | (None, w2) \<Rightarrow>
                    (Inr ''Video deleted successfully'',
                     w2\<lparr>reg := drop_job video_id (reg w2)\<rparr>))))"

section \<open>A worked run\<close>

text \<open>
  The scenario of the specification: a 30-second source, for which the inference returns
  the intervals (2, 10) and (25, 40); every collaborator succeeds and the content-plan
  model answers with text that is not JSON. The float operations are the exact ones:
  on the numbers of this run (sums, differences, halves and products of small integers)
  IEEE double arithmetic is exact.
\<close>

definition demo_moments :: "moment list" where
  "demo_moments =
     [\<lparr>m_start_time = Some 2, m_end_time = Some 10, m_title = Some ''Intro'',
        m_description = Some ''Opening''\<rparr>,
      \<lparr>m_start_time = Some 25, m_end_time = Some 40, m_title = None,
        m_description = None\<rparr>]"

definition demo_caps :: capabilities where
  "demo_caps =
     \<lparr>uuid4 = (\<lambda>n. ''id'' @ str_nat n),
      now_isoformat = ''2024-01-01T00:00:00'',
      date_after = (\<lambda>n. ''today+'' @ str_nat n),
      video_file_clip = (\<lambda>p. Inr (30, 25)),
      analyze_video = (\<lambda>p. Inr (Some demo_moments)),
      write_videofile = (\<lambda>s e p. None),
      save_frame = (\<lambda>t p. None),
      generate_subtitles = (\<lambda>p. Inr ''WEBVTT''),
      plan_model = (\<lambda>hs. Inr NotJson),
      float_add = (\<lambda>x y. x + y),
      float_sub = (\<lambda>x y. x - y),
      float_div = (\<lambda>x y. x / y),
      float_mul = (\<lambda>x y. x * y)\<rparr>"

definition demo_uploaded :: world where
  "demo_uploaded =
     snd (upload_video demo_caps (Some ''video/mp4'') ''a.mp4'' ''Talk'' None empty_world)"

definition demo_done :: world where
  "demo_done = snd (process_video demo_caps ''id0'' ''uploads/id0_a.mp4'' demo_uploaded)"

section \<open>Stage order, observations and registry invariants\<close>

text \<open>The stage tags in pipeline order, as listed beside \<open>ProcessingStatus.status\<close>.\<close>

definition stage_order :: "string list" where
  "stage_order = [''PROCESSING'', ''ANALYZING'', ''EXTRACTING_HIGHLIGHTS'',
     ''GENERATING_CONTENT_PLAN'', ''COMPLETED'']"

text \<open>
  A legal transition goes to the next stage of the order, or to ERROR from a stage that
  is not terminal. A legal trace has a legal transition between any two consecutive
  tags; since nothing leads out of COMPLETED or ERROR, they can only come last.
\<close>

definition legal_step :: "string \<Rightarrow> string \<Rightarrow> bool" where
  "legal_step a b =
     ((a, b) \<in> set (zip stage_order (tl stage_order))
        \<or> (b = ''ERROR'' \<and> a \<in> set (butlast stage_order)))"

fun legal_trace :: "string list \<Rightarrow> bool" where
  "legal_trace [] = True"
| "legal_trace [a] = True"
| "legal_trace (a # b # rest) = (legal_step a b \<and> legal_trace (b # rest))"

definition terminal_free :: "string list \<Rightarrow> bool" where
  "terminal_free tags = list_all (\<lambda>t. t \<noteq> ''COMPLETED'' \<and> t \<noteq> ''ERROR'') tags"

definition tags_of :: "(ProcessingStatus \<times> registry) list \<Rightarrow> string list" where
  "tags_of ts = map (\<lambda>pr. ps_status (fst pr)) ts"

text \<open>The status records a run of \<open>process_video\<close> writes, oldest first, and their tags.\<close>

definition new_writes ::
  "capabilities \<Rightarrow> string \<Rightarrow> string \<Rightarrow> world \<Rightarrow> (ProcessingStatus \<times> registry) list" where
  "new_writes caps video_id file_path w =
     drop (length (status_writes w))
       (status_writes (snd (process_video caps video_id file_path w)))"

definition written_tags :: "capabilities \<Rightarrow> string \<Rightarrow> string \<Rightarrow> world \<Rightarrow> string list" where
  "written_tags caps video_id file_path w = tags_of (new_writes caps video_id file_path w)"

text \<open>\<open>videos_db[video_id].processing_status\<close>, when the Job is in the map.\<close>

definition job_status :: "registry \<Rightarrow> string \<Rightarrow> string option" where
  "job_status r video_id = map_option vm_processing_status (map_of (videos_db r) video_id)"

definition record_status :: "registry \<Rightarrow> string \<Rightarrow> string option" where
  "record_status r video_id = map_option ps_status (map_of (processing_status_db r) video_id)"

text \<open>
  The Job's own field takes three values only (the comment on
  \<open>VideoMetadata.processing_status\<close> lists PROCESSING, COMPLETED, ERROR): \<open>job_view\<close>
  gives the value it holds while the status record holds a given tag.
\<close>

definition job_view :: "string \<Rightarrow> string" where
  "job_view tag =
     (if tag \<in> set [''ANALYZING'', ''EXTRACTING_HIGHLIGHTS'', ''GENERATING_CONTENT_PLAN'']
      then ''PROCESSING'' else tag)"

definition consistent_write :: "string \<Rightarrow> ProcessingStatus \<times> registry \<Rightarrow> bool" where
  "consistent_write video_id pr =
     (map_of (processing_status_db (snd pr)) video_id = Some (fst pr)
        \<and> job_status (snd pr) video_id = Some (job_view (ps_status (fst pr))))"

text \<open>
  What one stage of the \<open>try\<close> block does to the log of status writes: on success it
  appends the tags \<open>full\<close>, on an exception a proper prefix of them; a status record
  that exists stays; and when the Job is in the map with status PROCESSING, every write
  is consistent and the Job is still in the map afterwards.
\<close>

definition stage_post :: "string list \<Rightarrow> string \<Rightarrow> world \<Rightarrow> exn option \<times> world \<Rightarrow> bool" where
  "stage_post full video_id w out =
     (\<exists>ts. status_writes (snd out) = status_writes w @ ts
        \<and> (if fst out = None then tags_of ts = full
            else (\<exists>n<length full. tags_of ts = take n full))
        \<and> (map_of (processing_status_db (reg w)) video_id \<noteq> None
             \<longrightarrow> map_of (processing_status_db (reg (snd out))) video_id \<noteq> None)
        \<and> (job_status (reg w) video_id = Some ''PROCESSING''
             \<longrightarrow> list_all (consistent_write video_id) ts
                 \<and> map_of (videos_db (reg (snd out))) video_id \<noteq> None))"

text \<open>
  The registry invariant behind cascade deletion: \<open>highlights_db\<close> has distinct keys
  and files every HighlightClip under its own \<open>id\<close>, as \<open>process_video\<close> does.
\<close>

definition wf_highlights :: "registry \<Rightarrow> bool" where
  "wf_highlights r =
     (distinct (map fst (highlights_db r))
        \<and> list_all (\<lambda>kh. h_id (snd kh) = fst kh) (highlights_db r))"

text \<open>Runs in which one collaborator fails, one per stage.\<close>

definition fails_opening :: capabilities where
  "fails_opening = demo_caps\<lparr>video_file_clip := (\<lambda>p. Inl (CapabilityError ''cannot open''))\<rparr>"

definition fails_analysing :: capabilities where
  "fails_analysing = demo_caps\<lparr>analyze_video := (\<lambda>p. Inl (CapabilityError ''inference failed''))\<rparr>"

definition fails_extracting :: capabilities where
  "fails_extracting =
     demo_caps\<lparr>write_videofile := (\<lambda>s e p. Some (CapabilityError ''encode failed''))\<rparr>"

definition fails_planning :: capabilities where
  "fails_planning = demo_caps\<lparr>plan_model := (\<lambda>hs. Inl (CapabilityError ''model unavailable''))\<rparr>"

section \<open>Reading the call log\<close>

text \<open>
  \<open>highlight.get("start_time", 0)\<close> and \<open>highlight.get("end_time", 0)\<close>: the interval
  of a candidate as the inference returned it.
\<close>

definition interval_of :: "moment \<Rightarrow> real \<times> real" where
  "interval_of highlight =
     ((case m_start_time highlight of None \<Rightarrow> 0 | Some t \<Rightarrow> t),
      (case m_end_time highlight of None \<Rightarrow> 0 | Some t \<Rightarrow> t))"

definition clip_interval :: "HighlightClip \<Rightarrow> real \<times> real" where
  "clip_interval h = (h_start_time h, h_end_time h)"

text \<open>The time ranges of the clip extractions in a call log, and the thumbnail times.\<close>

fun clip_intervals :: "call list \<Rightarrow> (real \<times> real) list" where
  "clip_intervals [] = []"
| "clip_intervals (ExtractClip s e p # cs) = (s, e) # clip_intervals cs"
| "clip_intervals (c # cs) = clip_intervals cs"

fun thumbnail_times :: "call list \<Rightarrow> real list" where
  "thumbnail_times [] = []"
| "thumbnail_times (ExtractThumbnail t p # cs) = t # thumbnail_times cs"
| "thumbnail_times (c # cs) = thumbnail_times cs"

fun plan_inferences :: "call list \<Rightarrow> HighlightClip list list" where
  "plan_inferences [] = []"
| "plan_inferences (PlanInference hs # cs) = hs # plan_inferences cs"
| "plan_inferences (c # cs) = plan_inferences cs"

text \<open>
  The midpoint of an interval, as \<open>process_video\<close> computes the thumbnail time:
  \<open>start_time + ((end_time - start_time) / 2)\<close> in the float arithmetic of the program.
\<close>

definition midpoint :: "capabilities \<Rightarrow> real \<times> real \<Rightarrow> real" where
  "midpoint caps se =
     float_add caps (fst se) (float_div caps (float_sub caps (snd se) (fst se)) 2)"

text \<open>
  In the words of the specification: the thumbnail time is the midpoint of the interval
  whose end is clamped to the source duration (the same arithmetic, on the clamped end).
\<close>

definition spec_thumbnail_time :: "capabilities \<Rightarrow> real \<Rightarrow> moment \<Rightarrow> real" where
  "spec_thumbnail_time caps duration highlight =
     midpoint caps
       (fst (interval_of highlight), min (snd (interval_of highlight)) duration)"

text \<open>
  In the words of the specification: a Highlight lies within the source when
  \<open>0 \<le> start_time < end_time \<le> duration\<close>.
\<close>

definition within_source :: "real \<Rightarrow> real \<times> real \<Rightarrow> bool" where
  "within_source duration se = (0 \<le> fst se \<and> fst se < snd se \<and> snd se \<le> duration)"

text \<open>Runs with no candidate interval, and with a plan answer of one item for two clips.\<close>

definition finds_nothing :: capabilities where
  "finds_nothing = demo_caps\<lparr>analyze_video := (\<lambda>p. Inr (Some []))\<rparr>"


text \<open>A run whose plan answer is an object with \<open>"content_plan": null\<close>.\<close>

definition plans_null :: capabilities where
  "plans_null = demo_caps\<lparr>plan_model := (\<lambda>hs. Inr (JsonObject (Some PlanNotIterable)))\<rparr>"

text \<open>The two clips the worked run registers, in order.\<close>

definition demo_clips :: "HighlightClip list" where
  "demo_clips = highlights_of (reg demo_done) ''id0''"

text \<open>A second Job, submitted and processed after the first.\<close>

definition demo_two_done :: world where
  "demo_two_done =
     snd (process_video demo_caps ''id3'' ''uploads/id3_b.mp4''
       (snd (upload_video demo_caps (Some ''video/quicktime'') ''b.mp4'' ''Second'' None
          demo_done)))"


section \<open>Frame lemmas: what each helper leaves alone\<close>

text \<open>
  The fields a helper does not touch, as rewrite rules, and the helpers of the loop and
  of the plan generation as far as the registry and the status log are concerned.
\<close>

lemma log_call_simps [simp]:
  "reg (log_call c w) = reg w"
  "status_writes (log_call c w) = status_writes w"
  "files (log_call c w) = files w"
  "uuid_count (log_call c w) = uuid_count w"
  "tasks (log_call c w) = tasks w"
  "calls (log_call c w) = calls w @ [c]"
  by (simp_all add: log_call_def)

lemma write_file_simps [simp]:
  "reg (write_file p w) = reg w"
  "status_writes (write_file p w) = status_writes w"
  "files (write_file p w) = insert p (files w)"
  "uuid_count (write_file p w) = uuid_count w"
  "tasks (write_file p w) = tasks w"
  "calls (write_file p w) = calls w"
  by (simp_all add: write_file_def)

lemma set_status_simps [simp]:
  "videos_db (reg (set_status vid t w)) = videos_db (reg w)"
  "highlights_db (reg (set_status vid t w)) = highlights_db (reg w)"
  "content_plans_db (reg (set_status vid t w)) = content_plans_db (reg w)"
  "processing_status_db (reg (set_status vid t w)) =
     AList.update vid \<lparr>ps_video_id = vid, ps_status = t\<rparr> (processing_status_db (reg w))"
  "status_writes (set_status vid t w) =
     status_writes w @ [(\<lparr>ps_video_id = vid, ps_status = t\<rparr>, reg (set_status vid t w))]"
  "files (set_status vid t w) = files w"
  "uuid_count (set_status vid t w) = uuid_count w"
  "tasks (set_status vid t w) = tasks w"
  "calls (set_status vid t w) = calls w"
  by (simp_all add: set_status_def Let_def)

lemma update_video_Inl:
  "(update_video vid f w = Inl e) = (map_of (videos_db (reg w)) vid = None \<and> e = KeyError vid)"
  by (auto simp: update_video_def split: option.splits)

lemma update_video_Inr:
  "(update_video vid f w = Inr w') =
     (\<exists>v. map_of (videos_db (reg w)) vid = Some v \<and>
          w' = w\<lparr>reg := (reg w)\<lparr>videos_db := AList.update vid (f v) (videos_db (reg w))\<rparr>\<rparr>)"
  by (auto simp: update_video_def split: option.splits)

lemma extract_one_frame:
  "extract_one caps vid i m w = (r, w') \<Longrightarrow>
     videos_db (reg w') = videos_db (reg w) \<and>
     processing_status_db (reg w') = processing_status_db (reg w) \<and>
     content_plans_db (reg w') = content_plans_db (reg w) \<and>
     status_writes w' = status_writes w \<and> tasks w' = tasks w"
  by (auto simp: extract_one_def extract_clip_def extract_thumbnail_def Let_def
           split: option.splits sum.splits prod.splits)

lemma extract_loop_frame:
  "extract_loop caps vid i ms acc w = (r, w') \<Longrightarrow>
     videos_db (reg w') = videos_db (reg w) \<and>
     processing_status_db (reg w') = processing_status_db (reg w) \<and>
     content_plans_db (reg w') = content_plans_db (reg w) \<and>
     status_writes w' = status_writes w \<and> tasks w' = tasks w"
proof (induction ms arbitrary: i acc w)
  case Nil
  then show ?case by simp
next
  case (Cons m ms)
  obtain r1 w1 where one: "extract_one caps vid i m w = (r1, w1)"
    by (cases "extract_one caps vid i m w")
  note fr = extract_one_frame [OF one]
  show ?case
  proof (cases r1)
    case (Inl e)
    with Cons.prems one fr show ?thesis by simp
  next
    case (Inr h)
    with Cons.prems one have "extract_loop caps vid (Suc i) ms (acc @ [h]) w1 = (r, w')"
      by simp
    from Cons.IH [OF this] fr show ?thesis by simp
  qed
qed

lemma generate_content_plan_world:
  "snd (generate_content_plan caps hs w) =
     (if hs = [] then w else log_call (PlanInference hs) w)"
  by (simp add: generate_content_plan_def Let_def
        split: sum.splits plan_reply.splits option.splits plan_value.splits)

lemma VideoProcessor_init_frame:
  "VideoProcessor_init caps path w = (r, w') \<Longrightarrow>
     reg w' = reg w \<and> status_writes w' = status_writes w \<and> tasks w' = tasks w"
  by (auto simp: VideoProcessor_init_def split: if_splits)

section \<open>Submission\<close>

text \<open>
  Claim C8. A submission whose declared media type is not in the supported set (or that
  declares none) is rejected with the invalid-file-type error (HTTP 400), and the world
  is returned as it was: no identifier has been drawn (\<open>uuid_count\<close>), no file written
  (\<open>files\<close>), no entry added to any map of the registry, no task queued.
\<close>

theorem upload_rejects_unsupported:
  "content_type \<notin> Some ` set allowed_types \<Longrightarrow>
     upload_video caps content_type filename title description w = (Inl invalid_file_type, w)"
  by (auto simp: upload_video_def split: option.splits)

theorem upload_rejects_unsupported_witness:
  "upload_video demo_caps (Some ''image/png'') ''a.png'' ''Talk'' None empty_world
     = (Inl invalid_file_type, empty_world)"
proof -
  have "Some ''image/png'' \<notin> Some ` set allowed_types"
    by (simp add: allowed_types_def)
  then show ?thesis by (rule upload_rejects_unsupported)
qed

section \<open>The stages and the status log\<close>

text \<open>
  Each stage of the \<open>try\<close> block satisfies \<open>stage_post\<close> for the tags that remain
  to be written after it starts; \<open>stage_post_write\<close> steps from one stage to the one
  before it across a status write. \<open>process_video_char\<close> puts the stages and the
  handler together.
\<close>

lemma job_status_update [simp]:
  "job_status (r\<lparr>videos_db := AList.update vid v (videos_db r)\<rparr>) vid
     = Some (vm_processing_status v)"
  by (simp add: job_status_def update_conv')

lemma job_status_Some_dom: "job_status r vid = Some s \<Longrightarrow> map_of (videos_db r) vid \<noteq> None"
  by (auto simp: job_status_def)

lemma job_status_set_status [simp]:
  "job_status (reg (set_status vid t w)) v = job_status (reg w) v"
  by (simp add: job_status_def)

lemma plan_stage_post: "stage_post [''COMPLETED''] vid w (plan_stage caps vid hs w)"
proof -
  obtain r w1 where g: "generate_content_plan caps hs w = (r, w1)"
    by (cases "generate_content_plan caps hs w")
  have w1: "w1 = (if hs = [] then w else log_call (PlanInference hs) w)"
    using generate_content_plan_world [of caps hs w] g by simp
  then have fr: "reg w1 = reg w" "status_writes w1 = status_writes w" by auto
  show ?thesis
    using g fr
    by (auto simp: plan_stage_def stage_post_def Let_def tags_of_def consistent_write_def
          job_view_def update_conv' update_video_Inr job_status_def
          split: sum.splits)
qed

lemma stage_post_write:
  assumes post: "stage_post full vid (set_status vid t w1) out"
    and t: "job_view t = ''PROCESSING''"
    and fr: "status_writes w1 = status_writes w"
    and job: "job_status (reg w) vid = Some ''PROCESSING''
                \<Longrightarrow> job_status (reg w1) vid = Some ''PROCESSING''"
  shows "stage_post (t # full) vid w out"
proof -
  let ?w2 = "set_status vid t w1"
  let ?p = "\<lparr>ps_video_id = vid, ps_status = t\<rparr>"
  have rec: "map_of (processing_status_db (reg ?w2)) vid = Some ?p"
    by (simp add: update_conv')
  from post obtain ts where
    sw: "status_writes (snd out) = status_writes ?w2 @ ts"
    and tg: "if fst out = None then tags_of ts = full
             else (\<exists>n<length full. tags_of ts = take n full)"
    and keep: "map_of (processing_status_db (reg (snd out))) vid \<noteq> None"
    and cons: "job_status (reg ?w2) vid = Some ''PROCESSING''
                 \<Longrightarrow> list_all (consistent_write vid) ts
                     \<and> map_of (videos_db (reg (snd out))) vid \<noteq> None"
    using rec by (auto simp: stage_post_def)
  let ?ts = "(?p, reg ?w2) # ts"
  have 1: "status_writes (snd out) = status_writes w @ ?ts"
    using sw fr by simp
  have 2: "if fst out = None then tags_of ?ts = t # full
           else (\<exists>n<length (t # full). tags_of ?ts = take n (t # full))"
  proof (cases "fst out = None")
    case True
    with tg show ?thesis by (simp add: tags_of_def)
  next
    case False
    with tg obtain n where "n < length full" "tags_of ts = take n full" by auto
    then have "Suc n < length (t # full)" "tags_of ?ts = take (Suc n) (t # full)"
      by (simp_all add: tags_of_def)
    with False show ?thesis by metis
  qed
  have 3: "list_all (consistent_write vid) ?ts
             \<and> map_of (videos_db (reg (snd out))) vid \<noteq> None"
    if j: "job_status (reg w) vid = Some ''PROCESSING''"
  proof -
    from job [OF j] have j1: "job_status (reg w1) vid = Some ''PROCESSING''" .
    then have "job_status (reg ?w2) vid = Some ''PROCESSING''" by simp
    from cons [OF this] j1 t rec show ?thesis
      by (simp add: consistent_write_def)
  qed
  show ?thesis
    unfolding stage_post_def using 1 2 3 keep by blast
qed

lemma stage_post_raise:
  assumes "status_writes w1 = status_writes w"
    and "processing_status_db (reg w1) = processing_status_db (reg w)"
    and "videos_db (reg w1) = videos_db (reg w)"
    and "full \<noteq> []"
  shows "stage_post full vid w (Some e, w1)"
  using assms
  by (auto simp: stage_post_def tags_of_def job_status_def intro!: exI [of _ "[]"] exI [of _ 0])

lemma extraction_stage_post:
  "stage_post [''GENERATING_CONTENT_PLAN'', ''COMPLETED''] vid w
     (extraction_stage caps vid analysis w)"
proof -
  let ?ms = "case analysis of None \<Rightarrow> [] | Some ms \<Rightarrow> ms"
  obtain r w1 where l: "extract_loop caps vid 0 ?ms [] w = (r, w1)"
    by (cases "extract_loop caps vid 0 ?ms [] w")
  note fr = extract_loop_frame [OF l]
  show ?thesis
  proof (cases r)
    case (Inl e)
    then have "extraction_stage caps vid analysis w = (Some e, w1)"
      using l by (simp add: extraction_stage_def)
    then show ?thesis using fr by (simp add: stage_post_raise)
  next
    case (Inr clips)
    then have eq: "extraction_stage caps vid analysis w =
        plan_stage caps vid clips (set_status vid ''GENERATING_CONTENT_PLAN'' w1)"
      using l by (simp add: extraction_stage_def)
    show ?thesis
      unfolding eq
      by (rule stage_post_write [OF plan_stage_post])
         (use fr in \<open>simp_all add: job_view_def job_status_def\<close>)
  qed
qed

lemma analysis_stage_post:
  "stage_post [''EXTRACTING_HIGHLIGHTS'', ''GENERATING_CONTENT_PLAN'', ''COMPLETED''] vid w
     (analysis_stage caps vid path w)"
proof (cases "analyze_video caps path")
  case (Inl e)
  then have "analysis_stage caps vid path w = (Some e, log_call (AnalyzeVideo path) w)"
    by (simp add: analysis_stage_def)
  then show ?thesis by (simp add: stage_post_raise)
next
  case (Inr a)
  then have eq: "analysis_stage caps vid path w =
      extraction_stage caps vid a
        (set_status vid ''EXTRACTING_HIGHLIGHTS'' (log_call (AnalyzeVideo path) w))"
    by (simp add: analysis_stage_def)
  show ?thesis
    unfolding eq
    by (rule stage_post_write [OF extraction_stage_post])
       (simp_all add: job_view_def)
qed

lemma metadata_stage_post:
  "stage_post [''ANALYZING'', ''EXTRACTING_HIGHLIGHTS'', ''GENERATING_CONTENT_PLAN'',
      ''COMPLETED''] vid w (metadata_stage caps vid path w)"
proof -
  obtain r w1 where i: "VideoProcessor_init caps path w = (r, w1)"
    by (cases "VideoProcessor_init caps path w")
  note fr = VideoProcessor_init_frame [OF i]
  show ?thesis
  proof (cases r)
    case (Inl e)
    then have "metadata_stage caps vid path w = (Some e, w1)"
      using i by (simp add: metadata_stage_def)
    then show ?thesis using fr by (simp add: stage_post_raise)
  next
    case (Inr processor)
    let ?f = "\<lambda>v. v\<lparr>vm_duration := Some (get_duration processor),
                       vm_frames := Some (get_frame_count caps processor),
                       vm_processing_status := ''PROCESSING''\<rparr>"
    show ?thesis
    proof (cases "update_video vid ?f w1")
      case (Inl e)
      then have "metadata_stage caps vid path w = (Some e, w1)"
        using i Inr by (simp add: metadata_stage_def)
      then show ?thesis using fr by (simp add: stage_post_raise)
    next
      case (Inr w2)
      then have eq: "metadata_stage caps vid path w =
          analysis_stage caps vid path (set_status vid ''ANALYZING'' w2)"
        using i \<open>r = Inr processor\<close> by (simp add: metadata_stage_def)
      from Inr have w2: "status_writes w2 = status_writes w1"
        "job_status (reg w2) vid = Some ''PROCESSING''"
        by (auto simp: update_video_Inr)
      show ?thesis
        unfolding eq
        by (rule stage_post_write [OF analysis_stage_post])
           (use w2 fr in \<open>simp_all add: job_view_def\<close>)
    qed
  qed
qed

lemma process_video_char:
  "\<exists>ts. status_writes (snd (process_video caps vid path w)) = status_writes w @ ts
     \<and> (tags_of ts = stage_order
          \<or> (\<exists>n<4. tags_of ts = take (Suc n) stage_order
                \<or> tags_of ts = take (Suc n) stage_order @ [''ERROR'']))
     \<and> (job_status (reg w) vid = Some ''PROCESSING'' \<longrightarrow> list_all (consistent_write vid) ts)
     \<and> map_of (processing_status_db (reg (snd (process_video caps vid path w)))) vid \<noteq> None"
proof -
  let ?w0 = "set_status vid ''PROCESSING'' w"
  let ?p0 = "\<lparr>ps_video_id = vid, ps_status = ''PROCESSING''\<rparr>"
  let ?full = "[''ANALYZING'', ''EXTRACTING_HIGHLIGHTS'', ''GENERATING_CONTENT_PLAN'',
      ''COMPLETED'']"
  obtain res w1 where tb: "try_block caps vid path w = (res, w1)"
    by (cases "try_block caps vid path w")
  then have ms: "metadata_stage caps vid path ?w0 = (res, w1)"
    by (simp add: try_block_def)
  have rec0: "map_of (processing_status_db (reg ?w0)) vid = Some ?p0"
    by (simp add: update_conv')
  have "stage_post ?full vid ?w0 (res, w1)"
    using metadata_stage_post [of vid ?w0 caps path] ms by simp
  then obtain ts where
    sw: "status_writes w1 = status_writes ?w0 @ ts"
    and tg': "if res = None then tags_of ts = ?full
             else (\<exists>n<length ?full. tags_of ts = take n ?full)"
    and keep': "map_of (processing_status_db (reg ?w0)) vid \<noteq> None
                 \<longrightarrow> map_of (processing_status_db (reg w1)) vid \<noteq> None"
    and cons': "job_status (reg ?w0) vid = Some ''PROCESSING''
                 \<longrightarrow> list_all (consistent_write vid) ts
                     \<and> map_of (videos_db (reg w1)) vid \<noteq> None"
    unfolding stage_post_def fst_conv snd_conv by blast
  have len: "length ?full = 4" by simp
  note tg = tg' [unfolded len]
  from keep' rec0 have keep: "map_of (processing_status_db (reg w1)) vid \<noteq> None"
    by simp
  from cons' have cons: "job_status (reg w) vid = Some ''PROCESSING''
                 \<Longrightarrow> list_all (consistent_write vid) ts
                     \<and> map_of (videos_db (reg w1)) vid \<noteq> None"
    by simp
  let ?ts0 = "(?p0, reg ?w0) # ts"
  have sw0: "status_writes w1 = status_writes w @ ?ts0"
    using sw by simp
  have c0: "list_all (consistent_write vid) ?ts0"
    if j: "job_status (reg w) vid = Some ''PROCESSING''"
    using cons [OF j] j rec0 by (simp add: consistent_write_def job_view_def)
  show ?thesis
  proof (cases res)
    case None
    then have pv: "process_video caps vid path w = (None, w1)"
      using tb by (simp add: process_video_def)
    from None tg have "tags_of ?ts0 = stage_order"
      by (simp add: tags_of_def stage_order_def)
    with pv sw0 c0 keep show ?thesis by (intro exI [of _ ?ts0]) simp
  next
    case (Some e)
    with tg obtain n where n: "n < 4" "tags_of ts = take n ?full" by auto
    then have tg0: "tags_of ?ts0 = take (Suc n) stage_order"
      by (simp add: tags_of_def stage_order_def)
    let ?f = "\<lambda>v. v\<lparr>vm_processing_status := ''ERROR'',
                       vm_error_message := Some (str_exn e)\<rparr>"
    show ?thesis
    proof (cases "update_video vid ?f w1")
      case (Inl e2)
      then have pv: "process_video caps vid path w = (Some e2, w1)"
        using tb Some by (simp add: process_video_def)
      with sw0 c0 keep tg0 n(1) show ?thesis
        by (intro exI [of _ ?ts0]) auto
    next
      case (Inr w2)
      let ?w3 = "set_status vid ''ERROR'' w2"
      let ?pE = "\<lparr>ps_video_id = vid, ps_status = ''ERROR''\<rparr>"
      from Inr have pv: "process_video caps vid path w = (None, ?w3)"
        using tb Some by (simp add: process_video_def)
      from Inr have w2: "status_writes w2 = status_writes w1"
        "job_status (reg w2) vid = Some ''ERROR''"
        by (auto simp: update_video_Inr)
      let ?ts1 = "?ts0 @ [(?pE, reg ?w3)]"
      have 1: "status_writes ?w3 = status_writes w @ ?ts1"
        using w2 sw0 by simp
      have 2: "tags_of ?ts1 = take (Suc n) stage_order @ [''ERROR'']"
        using tg0 by (simp add: tags_of_def)
      have 3: "consistent_write vid (?pE, reg ?w3)"
        using w2 by (simp add: consistent_write_def job_view_def update_conv')
      have 4: "map_of (processing_status_db (reg ?w3)) vid \<noteq> None"
        by (simp add: update_conv')
      from pv 1 2 3 4 c0 n(1) show ?thesis
        by (intro exI [of _ ?ts1]) auto
    qed
  qed
qed

lemma new_writes_char:
  "status_writes (snd (process_video caps vid path w)) = status_writes w @ ts
     \<Longrightarrow> new_writes caps vid path w = ts"
  by (simp add: new_writes_def)

section \<open>The status state machine\<close>

text \<open>
  The traces \<open>process_video_char\<close> allows are legal, and four runs of the worked
  scenario, each with one failing collaborator, end in ERROR after each of the four
  non-terminal stages.
\<close>

lemma allowed_traces_legal:
  assumes "tags = stage_order
     \<or> (\<exists>n<4. tags = take (Suc n) stage_order \<or> tags = take (Suc n) stage_order @ [''ERROR''])"
  shows "tags \<noteq> [] \<and> hd tags = ''PROCESSING'' \<and> legal_trace tags
           \<and> terminal_free (butlast tags)"
proof -
  have n4: "n = 0 \<or> n = 1 \<or> n = 2 \<or> n = 3" if "n < 4" for n :: nat
    using that by arith
  from assms n4 consider "tags = stage_order"
    | n where "n = 0 \<or> n = 1 \<or> n = 2 \<or> n = 3" "tags = take (Suc n) stage_order"
    | n where "n = 0 \<or> n = 1 \<or> n = 2 \<or> n = 3" "tags = take (Suc n) stage_order @ [''ERROR'']"
    by blast
  then show ?thesis
  proof cases
    case 1
    then show ?thesis
      by (simp add: stage_order_def legal_step_def terminal_free_def)
  next
    case 2
    then show ?thesis
      by (auto simp: stage_order_def legal_step_def terminal_free_def)
  next
    case 3
    then show ?thesis
      by (auto simp: stage_order_def legal_step_def terminal_free_def)
  qed
qed

lemma error_after_processing:
  "written_tags fails_opening ''id0'' ''uploads/id0_a.mp4'' demo_uploaded
     = [''PROCESSING'', ''ERROR'']"
  by code_simp

lemma error_after_analyzing:
  "written_tags fails_analysing ''id0'' ''uploads/id0_a.mp4'' demo_uploaded
     = [''PROCESSING''] @ [''ANALYZING'', ''ERROR'']"
  by code_simp

lemma error_after_extracting:
  "written_tags fails_extracting ''id0'' ''uploads/id0_a.mp4'' demo_uploaded
     = [''PROCESSING'', ''ANALYZING''] @ [''EXTRACTING_HIGHLIGHTS'', ''ERROR'']"
  by code_simp

lemma error_after_generating:
  "written_tags fails_planning ''id0'' ''uploads/id0_a.mp4'' demo_uploaded
     = [''PROCESSING'', ''ANALYZING'', ''EXTRACTING_HIGHLIGHTS'']
         @ [''GENERATING_CONTENT_PLAN'', ''ERROR'']"
  by code_simp

lemma demo_run_tags:
  "written_tags demo_caps ''id0'' ''uploads/id0_a.mp4'' demo_uploaded = stage_order"
  by code_simp

text \<open>
  Claim C5. For any collaborators, any Job identifier, file path and starting world, the
  tags that one run of \<open>process_video\<close> writes to \<open>processing_status_db\<close>, in order,
  start with PROCESSING and form a legal trace: each tag is followed by the next stage
  of PROCESSING, ANALYZING, EXTRACTING_HIGHLIGHTS, GENERATING_CONTENT_PLAN, COMPLETED,
  or by ERROR when it is not terminal. Neither COMPLETED nor ERROR occurs before the
  last tag, so nothing is written after them. ERROR is reachable from each of the four
  non-terminal stages: for each there is a run whose trace ends with that stage followed
  by ERROR.
\<close>

theorem status_writes_follow_stage_order:
  "written_tags caps vid path w \<noteq> []
     \<and> hd (written_tags caps vid path w) = ''PROCESSING''
     \<and> legal_trace (written_tags caps vid path w)
     \<and> terminal_free (butlast (written_tags caps vid path w))
     \<and> (\<forall>s \<in> set (butlast stage_order).
           \<exists>caps' vid' path' w' pre.
             written_tags caps' vid' path' w' = pre @ [s, ''ERROR''])"
proof -
  from process_video_char [of caps vid path w] obtain ts where
    sw: "status_writes (snd (process_video caps vid path w)) = status_writes w @ ts"
    and tg: "tags_of ts = stage_order
          \<or> (\<exists>n<4. tags_of ts = take (Suc n) stage_order
                \<or> tags_of ts = take (Suc n) stage_order @ [''ERROR''])"
    by blast
  have "written_tags caps vid path w = tags_of ts"
    using sw by (simp add: written_tags_def new_writes_def)
  with allowed_traces_legal [OF tg] have universal:
    "written_tags caps vid path w \<noteq> []
     \<and> hd (written_tags caps vid path w) = ''PROCESSING''
     \<and> legal_trace (written_tags caps vid path w)
     \<and> terminal_free (butlast (written_tags caps vid path w))"
    by simp
  have reach: "\<exists>caps' vid' path' w' pre.
      written_tags caps' vid' path' w' = pre @ [s, ''ERROR'']"
    if "s \<in> set (butlast stage_order)" for s
  proof -
    from that consider "s = ''PROCESSING''" | "s = ''ANALYZING''"
      | "s = ''EXTRACTING_HIGHLIGHTS''" | "s = ''GENERATING_CONTENT_PLAN''"
      by (auto simp: stage_order_def)
    then show ?thesis
    proof cases
      case 1
      with error_after_processing show ?thesis by (metis append_Nil)
    next
      case 2
      with error_after_analyzing show ?thesis by metis
    next
      case 3
      with error_after_extracting show ?thesis by metis
    next
      case 4
      with error_after_generating show ?thesis by metis
    qed
  qed
  from universal reach show ?thesis by blast
qed

theorem status_writes_follow_stage_order_witness:
  "written_tags demo_caps ''id0'' ''uploads/id0_a.mp4'' demo_uploaded = stage_order
     \<and> legal_trace (written_tags demo_caps ''id0'' ''uploads/id0_a.mp4'' demo_uploaded)
     \<and> terminal_free (butlast (written_tags demo_caps ''id0'' ''uploads/id0_a.mp4''
                                   demo_uploaded))
     \<and> (\<exists>caps' vid' path' w' pre.
           written_tags caps' vid' path' w' = pre @ [''ANALYZING'', ''ERROR''])"
proof -
  have "''ANALYZING'' \<in> set (butlast stage_order)"
    by (simp add: stage_order_def)
  with status_writes_follow_stage_order
         [of demo_caps "''id0''" "''uploads/id0_a.mp4''" demo_uploaded]
    demo_run_tags
  show ?thesis by blast
qed






section \<open>Content-plan generation\<close>

text \<open>
  Claim C7. \<open>generate_content_plan\<close> on the empty list raises the ValueError and leaves
  the world as it was, so the model is not called (no \<open>PlanInference\<close> is logged). In
  \<open>process_video\<close>, when the Job is in the map, the source file opens and the analysis
  yields no candidate interval, that error ends the Job: the task's handler sets the
  Job's status and the status record to ERROR and stores the message; the only
  collaborator calls of the run are the opening of the file and the analysis, and no
  content plan is registered.
\<close>

theorem empty_plan_input_fails_job:
  assumes job: "map_of (videos_db (reg w)) vid \<noteq> None"
    and on_disk: "path \<in> files w"
    and opened: "video_file_clip caps path = Inr processor"
    and analysed: "analyze_video caps path = Inr analysis"
    and none: "(case analysis of None \<Rightarrow> [] | Some ms \<Rightarrow> ms) = []"
  shows "generate_content_plan caps [] w0
           = (Inl (ValueError ''No highlights provided for content plan generation''), w0)
     \<and> fst (process_video caps vid path w) = None
     \<and> job_status (reg (snd (process_video caps vid path w))) vid = Some ''ERROR''
     \<and> record_status (reg (snd (process_video caps vid path w))) vid = Some ''ERROR''
     \<and> map_option vm_error_message
          (map_of (videos_db (reg (snd (process_video caps vid path w)))) vid)
         = Some (Some ''No highlights provided for content plan generation'')
     \<and> calls (snd (process_video caps vid path w))
         = calls w @ [VideoFileClip path, AnalyzeVideo path]
     \<and> plan_inferences (calls (snd (process_video caps vid path w)))
         = plan_inferences (calls w)
     \<and> content_plans_db (reg (snd (process_video caps vid path w)))
         = content_plans_db (reg w)"
proof -
  from job obtain v where v: "map_of (videos_db (reg w)) vid = Some v" by auto
  have g: "generate_content_plan caps [] u
      = (Inl (ValueError ''No highlights provided for content plan generation''), u)" for u
    by (simp add: generate_content_plan_def)
  have pi: "plan_inferences (cs @ [VideoFileClip path, AnalyzeVideo path])
      = plan_inferences cs" for cs
    by (induction cs rule: plan_inferences.induct) simp_all
  have tb: "try_block caps vid path w =
      (Some (ValueError ''No highlights provided for content plan generation''),
       set_status vid ''GENERATING_CONTENT_PLAN''
         (set_status vid ''EXTRACTING_HIGHLIGHTS''
           (log_call (AnalyzeVideo path)
             (set_status vid ''ANALYZING''
               ((log_call (VideoFileClip path) (set_status vid ''PROCESSING'' w))
                 \<lparr>reg := (reg (set_status vid ''PROCESSING'' w))
                    \<lparr>videos_db := AList.update vid
                        (v\<lparr>vm_duration := Some (get_duration processor),
                           vm_frames := Some (get_frame_count caps processor),
                           vm_processing_status := ''PROCESSING''\<rparr>)
                        (videos_db (reg w))\<rparr>\<rparr>)))))"
    using v on_disk opened analysed none
    by (simp add: try_block_def metadata_stage_def VideoProcessor_init_def update_video_def
          analysis_stage_def extraction_stage_def plan_stage_def g)
  show ?thesis
    using v
    by (simp add: g pi process_video_def tb update_video_def update_conv' job_status_def
          record_status_def)
qed

theorem empty_plan_input_fails_job_witness:
  "generate_content_plan finds_nothing [] empty_world
           = (Inl (ValueError ''No highlights provided for content plan generation''),
              empty_world)
     \<and> fst (process_video finds_nothing ''id0'' ''uploads/id0_a.mp4'' demo_uploaded) = None
     \<and> job_status (reg (snd (process_video finds_nothing ''id0'' ''uploads/id0_a.mp4''
           demo_uploaded))) ''id0'' = Some ''ERROR''
     \<and> record_status (reg (snd (process_video finds_nothing ''id0'' ''uploads/id0_a.mp4''
           demo_uploaded))) ''id0'' = Some ''ERROR''
     \<and> map_option vm_error_message
          (map_of (videos_db (reg (snd (process_video finds_nothing ''id0''
             ''uploads/id0_a.mp4'' demo_uploaded)))) ''id0'')
         = Some (Some ''No highlights provided for content plan generation'')
     \<and> calls (snd (process_video finds_nothing ''id0'' ''uploads/id0_a.mp4'' demo_uploaded))
         = calls demo_uploaded
             @ [VideoFileClip ''uploads/id0_a.mp4'', AnalyzeVideo ''uploads/id0_a.mp4'']
     \<and> plan_inferences (calls (snd (process_video finds_nothing ''id0''
           ''uploads/id0_a.mp4'' demo_uploaded)))
         = plan_inferences (calls demo_uploaded)
     \<and> content_plans_db (reg (snd (process_video finds_nothing ''id0''
           ''uploads/id0_a.mp4'' demo_uploaded)))
         = content_plans_db (reg demo_uploaded)"
proof -
  have 1: "map_of (videos_db (reg demo_uploaded)) ''id0'' \<noteq> None"
    by code_simp
  have 2: "''uploads/id0_a.mp4'' \<in> files demo_uploaded"
    by code_simp
  have 3: "video_file_clip finds_nothing ''uploads/id0_a.mp4'' = Inr (30, 25)"
    by (simp add: finds_nothing_def demo_caps_def)
  have 4: "analyze_video finds_nothing ''uploads/id0_a.mp4'' = Inr (Some [])"
    by (simp add: finds_nothing_def demo_caps_def)
  have 5: "(case Some [] of None \<Rightarrow> [] | Some ms \<Rightarrow> ms) = ([] :: moment list)"
    by simp
  show ?thesis by (rule empty_plan_input_fails_job [OF 1 2 3 4 5])
qed

lemma basic_posts_length [simp]: "length (basic_posts caps k hs) = length hs"
  by (induction hs arbitrary: k) simp_all








text \<open>
  In \<open>process_video\<close> an exception of the plan generation ends the Job in ERROR, as in
  the run whose plan answer holds \<open>"content_plan": null\<close>.
\<close>

lemma null_plan_fails_job:
  "job_status
     (reg (snd (process_video plans_null ''id0'' ''uploads/id0_a.mp4'' demo_uploaded)))
     ''id0'' = Some ''ERROR''
   \<and> map_of (content_plans_db
       (reg (snd (process_video plans_null ''id0'' ''uploads/id0_a.mp4'' demo_uploaded))))
       ''id0'' = None"
  by code_simp

section \<open>The extraction loop\<close>

text \<open>
  What one iteration, and then the whole loop, adds to the call log and to
  \<open>highlights_db\<close>.
\<close>

lemma clip_intervals_append [simp]:
  "clip_intervals (xs @ ys) = clip_intervals xs @ clip_intervals ys"
  by (induction xs rule: clip_intervals.induct) simp_all

lemma thumbnail_times_append [simp]:
  "thumbnail_times (xs @ ys) = thumbnail_times xs @ thumbnail_times ys"
  by (induction xs rule: thumbnail_times.induct) simp_all

lemma set_update_subset: "set (AList.update k v al) \<subseteq> insert (k, v) (set al)"
  by (induction al) auto

lemma extract_one_Inr:
  assumes "extract_one caps vid i m w = (Inr h, w')"
  shows "clip_interval h = interval_of m
     \<and> clip_intervals (calls w') = clip_intervals (calls w) @ [interval_of m]
     \<and> thumbnail_times (calls w') = thumbnail_times (calls w) @ [midpoint caps (interval_of m)]
     \<and> snd ` set (highlights_db (reg w')) \<subseteq> insert h (snd ` set (highlights_db (reg w)))"
  using assms set_update_subset [of "uuid4 caps (uuid_count w)" h "highlights_db (reg w)"]
  by (auto simp: extract_one_def extract_clip_def extract_thumbnail_def Let_def
        clip_interval_def interval_of_def midpoint_def
        split: option.splits sum.splits prod.splits)

lemma extract_one_Inl:
  assumes "extract_one caps vid i m w = (Inl e, w')"
  shows "(thumbnail_times (calls w') = thumbnail_times (calls w)
          \<or> thumbnail_times (calls w')
              = thumbnail_times (calls w) @ [midpoint caps (interval_of m)])
     \<and> highlights_db (reg w') = highlights_db (reg w)"
  using assms
  by (auto simp: extract_one_def extract_clip_def extract_thumbnail_def Let_def
        interval_of_def midpoint_def
        split: option.splits sum.splits prod.splits)

lemma subset_chain: "A \<subseteq> B \<union> C \<Longrightarrow> B \<subseteq> insert h D \<Longrightarrow> h \<in> C \<Longrightarrow> A \<subseteq> D \<union> C"
  by blast

lemma extract_loop_Inr:
  assumes "extract_loop caps vid i ms acc w = (Inr clips, w')"
  shows "map clip_interval clips = map clip_interval acc @ map interval_of ms
     \<and> clip_intervals (calls w') = clip_intervals (calls w) @ map interval_of ms
     \<and> thumbnail_times (calls w')
         = thumbnail_times (calls w) @ map (\<lambda>m. midpoint caps (interval_of m)) ms
     \<and> snd ` set (highlights_db (reg w')) \<subseteq> snd ` set (highlights_db (reg w)) \<union> set clips
     \<and> set acc \<subseteq> set clips"
  using assms
proof (induction ms arbitrary: i acc w)
  case Nil
  then show ?case by auto
next
  case (Cons m ms)
  obtain r1 w1 where one: "extract_one caps vid i m w = (r1, w1)"
    by (cases "extract_one caps vid i m w")
  show ?case
  proof (cases r1)
    case (Inl e)
    with Cons.prems one show ?thesis by simp
  next
    case (Inr h)
    with Cons.prems one have rest: "extract_loop caps vid (Suc i) ms (acc @ [h]) w1 = (Inr clips, w')"
      by simp
    note ih = Cons.IH [OF rest]
    note st = extract_one_Inr [OF one [unfolded Inr]]
    from ih have h_in: "h \<in> set clips" by simp
    have sub: "snd ` set (highlights_db (reg w'))
        \<subseteq> snd ` set (highlights_db (reg w)) \<union> set clips"
      by (rule subset_chain [OF ih [THEN conjunct2, THEN conjunct2, THEN conjunct2,
            THEN conjunct1] st [THEN conjunct2, THEN conjunct2, THEN conjunct2] h_in])
    from ih st sub show ?thesis by simp
  qed
qed

lemma extract_loop_thumbnails:
  assumes "extract_loop caps vid i ms acc w = (r, w')"
  shows "\<exists>n\<le>length ms. thumbnail_times (calls w')
           = thumbnail_times (calls w) @ map (\<lambda>m. midpoint caps (interval_of m)) (take n ms)"
  using assms
proof (induction ms arbitrary: i acc w)
  case Nil
  then show ?case by auto
next
  case (Cons m ms)
  obtain r1 w1 where one: "extract_one caps vid i m w = (r1, w1)"
    by (cases "extract_one caps vid i m w")
  show ?case
  proof (cases r1)
    case (Inl e)
    with Cons.prems one have w': "w' = w1" by simp
    from extract_one_Inl [OF one [unfolded Inl]] consider
      "thumbnail_times (calls w1) = thumbnail_times (calls w)"
      | "thumbnail_times (calls w1) = thumbnail_times (calls w) @ [midpoint caps (interval_of m)]"
      by blast
    then show ?thesis
    proof cases
      case 1
      then show ?thesis unfolding w' by (intro exI [of _ 0]) simp
    next
      case 2
      then show ?thesis unfolding w' by (intro exI [of _ 1]) simp
    qed
  next
    case (Inr h)
    with Cons.prems one have rest: "extract_loop caps vid (Suc i) ms (acc @ [h]) w1 = (r, w')"
      by simp
    from Cons.IH [OF rest] obtain n where n: "n \<le> length ms"
      "thumbnail_times (calls w')
         = thumbnail_times (calls w1) @ map (\<lambda>m. midpoint caps (interval_of m)) (take n ms)"
      by blast
    from extract_one_Inr [OF one [unfolded Inr]] n show ?thesis
      by (intro exI [of _ "Suc n"]) simp
  qed
qed

text \<open>
  The scenario of the specification, run to completion: the source lasts 30 seconds, the
  second Highlight is registered with the interval (25, 40), the clip extraction was
  called with the same interval, and the Highlight does not lie within the source.
\<close>

theorem highlight_end_not_clamped_counterexample:
  "map_option vm_duration (map_of (videos_db (reg demo_done)) ''id0'') = Some (Some 30)
   \<and> job_status (reg demo_done) ''id0'' = Some ''COMPLETED''
   \<and> map clip_interval (highlights_of (reg demo_done) ''id0'') = [(2, 10), (25, 40)]
   \<and> clip_intervals (calls demo_done) = [(2, 10), (25, 40)]
   \<and> \<not> within_source 30 (clip_interval (highlights_of (reg demo_done) ''id0'' ! 1))"
  by code_simp

text \<open>
  Claim C1, amended. When the extraction loop succeeds, the Highlights it constructs
  carry, in input order, exactly the start and end times the inference returned (0 for
  a missing field); the clip extractions were called with the same intervals; every
  Highlight in the registry afterwards was there before or is one of those constructed;
  no clamping to the source duration takes place, so the constructed Highlights satisfy
  \<open>0 \<le> start_time < end_time \<le> duration\<close> exactly when the inferred intervals do.
\<close>

theorem highlights_record_inferred_interval:
  assumes "fst (extract_loop caps vid 0 ms [] w) = Inr clips"
  shows "map clip_interval clips = map interval_of ms
     \<and> clip_intervals (calls (snd (extract_loop caps vid 0 ms [] w)))
         = clip_intervals (calls w) @ map interval_of ms
     \<and> snd ` set (highlights_db (reg (snd (extract_loop caps vid 0 ms [] w))))
         \<subseteq> snd ` set (highlights_db (reg w)) \<union> set clips
     \<and> (list_all (within_source duration) (map clip_interval clips)
          = list_all (within_source duration) (map interval_of ms))"
proof -
  from assms have "extract_loop caps vid 0 ms [] w
      = (Inr clips, snd (extract_loop caps vid 0 ms [] w))"
    by (simp add: prod_eq_iff)
  from extract_loop_Inr [OF this] show ?thesis by simp
qed

theorem highlights_record_inferred_interval_witness:
  "map clip_interval demo_clips = map interval_of demo_moments
     \<and> clip_intervals (calls (snd (extract_loop demo_caps ''id0'' 0 demo_moments []
           demo_uploaded)))
         = clip_intervals (calls demo_uploaded) @ map interval_of demo_moments
     \<and> snd ` set (highlights_db (reg (snd (extract_loop demo_caps ''id0'' 0 demo_moments []
           demo_uploaded))))
         \<subseteq> snd ` set (highlights_db (reg demo_uploaded)) \<union> set demo_clips
     \<and> (list_all (within_source 30) (map clip_interval demo_clips)
          = list_all (within_source 30) (map interval_of demo_moments))"
proof -
  have "fst (extract_loop demo_caps ''id0'' 0 demo_moments [] demo_uploaded) = Inr demo_clips"
    by code_simp
  then show ?thesis by (rule highlights_record_inferred_interval)
qed

text \<open>
  In the same run the thumbnail of the second interval, (25, 40), is taken at 32.5
  seconds, beyond the end of the 30-second source; the midpoint of the clamped interval
  is 27.5. All numbers involved are exact in IEEE double arithmetic.
\<close>

theorem thumbnail_not_clamped_counterexample:
  "map_option vm_duration (map_of (videos_db (reg demo_done)) ''id0'') = Some (Some 30)
   \<and> interval_of (demo_moments ! 1) = (25, 40)
   \<and> thumbnail_times (calls demo_done) = [6, 65 / 2]
   \<and> spec_thumbnail_time demo_caps 30 (demo_moments ! 1) = 55 / 2"
  by code_simp

text \<open>
  Claim C6, amended. The thumbnails the extraction loop asks for are taken, in input
  order, at \<open>start_time + (end_time - start_time) / 2\<close>, computed from the interval
  as the inference returned it (the end is not clamped), for the intervals processed
  (all of them when the loop succeeds). For an interval that ends within the source
  duration this is the midpoint of the clamped interval. The statement holds whatever
  the rounding of the float operations.
\<close>

theorem thumbnail_at_midpoint_of_inferred_interval:
  "(\<exists>n\<le>length ms.
       thumbnail_times (calls (snd (extract_loop caps vid 0 ms [] w)))
         = thumbnail_times (calls w) @ map (\<lambda>m. midpoint caps (interval_of m)) (take n ms))
     \<and> ((\<exists>clips. fst (extract_loop caps vid 0 ms [] w) = Inr clips) \<longrightarrow>
           thumbnail_times (calls (snd (extract_loop caps vid 0 ms [] w)))
             = thumbnail_times (calls w) @ map (\<lambda>m. midpoint caps (interval_of m)) ms)
     \<and> (\<forall>m duration. snd (interval_of m) \<le> duration
           \<longrightarrow> midpoint caps (interval_of m) = spec_thumbnail_time caps duration m)"
proof -
  let ?L = "extract_loop caps vid 0 ms [] w"
  have eq: "?L = (fst ?L, snd ?L)" by simp
  have a: "\<exists>n\<le>length ms. thumbnail_times (calls (snd ?L))
             = thumbnail_times (calls w) @ map (\<lambda>m. midpoint caps (interval_of m)) (take n ms)"
    by (rule extract_loop_thumbnails [OF eq])
  have b: "thumbnail_times (calls (snd ?L))
             = thumbnail_times (calls w) @ map (\<lambda>m. midpoint caps (interval_of m)) ms"
    if "\<exists>clips. fst ?L = Inr clips"
  proof -
    from that obtain clips where "fst ?L = Inr clips" by blast
    then have "?L = (Inr clips, snd ?L)" by (simp add: prod_eq_iff)
    from extract_loop_Inr [OF this] show ?thesis by simp
  qed
  have c: "midpoint caps (interval_of m) = spec_thumbnail_time caps duration m"
    if "snd (interval_of m) \<le> duration" for m duration
    using that by (simp add: spec_thumbnail_time_def min_def)
  from a b c show ?thesis by blast
qed

theorem thumbnail_at_midpoint_of_inferred_interval_witness:
  "thumbnail_times (calls (snd (extract_loop demo_caps ''id0'' 0 demo_moments []
       demo_uploaded)))
     = thumbnail_times (calls demo_uploaded)
         @ map (\<lambda>m. midpoint demo_caps (interval_of m)) demo_moments
   \<and> midpoint demo_caps (interval_of (demo_moments ! 0))
       = spec_thumbnail_time demo_caps 30 (demo_moments ! 0)"
proof -
  have "fst (extract_loop demo_caps ''id0'' 0 demo_moments [] demo_uploaded) = Inr demo_clips"
    by code_simp
  then have 1: "\<exists>clips. fst (extract_loop demo_caps ''id0'' 0 demo_moments [] demo_uploaded)
      = Inr clips"
    by blast
  have 2: "snd (interval_of (demo_moments ! 0)) \<le> 30" by code_simp
  from thumbnail_at_midpoint_of_inferred_interval
         [of demo_moments demo_caps "''id0''" demo_uploaded] 1 2
  show ?thesis by blast
qed

section \<open>Cascade deletion\<close>

text \<open>
  The guarded removals never raise and leave the registry alone; deleting the Highlights
  of a Job filters \<open>highlights_db\<close> by their identifiers, which under the registry
  invariant is the same as filtering by the owning Job.
\<close>

lemma remove_if_exists_ok:
  "fst (remove_if_exists p w) = None \<and> reg (snd (remove_if_exists p w)) = reg w"
  by (simp add: remove_if_exists_def os_remove_def)

lemma remove_optional_ok:
  "fst (remove_optional po w) = None \<and> reg (snd (remove_optional po w)) = reg w"
  by (simp add: remove_optional_def os_remove_def split: option.splits)

lemma delete_as_filter: "AList.delete k al = filter (\<lambda>kh. fst kh \<noteq> k) al"
  by (induction al) auto

lemma delete_highlight_ok:
  "fst (delete_highlight h w) = None
     \<and> highlights_db (reg (snd (delete_highlight h w)))
         = filter (\<lambda>kh. fst kh \<noteq> h_id h) (highlights_db (reg w))
     \<and> videos_db (reg (snd (delete_highlight h w))) = videos_db (reg w)
     \<and> content_plans_db (reg (snd (delete_highlight h w))) = content_plans_db (reg w)
     \<and> processing_status_db (reg (snd (delete_highlight h w))) = processing_status_db (reg w)"
proof -
  obtain w1 where 1: "remove_if_exists (h_clip_path h) w = (None, w1)" "reg w1 = reg w"
    using remove_if_exists_ok [of "h_clip_path h" w]
    by (cases "remove_if_exists (h_clip_path h) w") auto
  obtain w2 where 2: "remove_optional (h_thumbnail_path h) w1 = (None, w2)" "reg w2 = reg w1"
    using remove_optional_ok [of "h_thumbnail_path h" w1]
    by (cases "remove_optional (h_thumbnail_path h) w1") auto
  obtain w3 where 3: "remove_optional (h_subtitle_path h) w2 = (None, w3)" "reg w3 = reg w2"
    using remove_optional_ok [of "h_subtitle_path h" w2]
    by (cases "remove_optional (h_subtitle_path h) w2") auto
  have absent: "filter (\<lambda>kh. fst kh \<noteq> h_id h) (highlights_db (reg w)) = highlights_db (reg w)"
    if "map_of (highlights_db (reg w)) (h_id h) = None"
  proof -
    from that have "h_id h \<notin> fst ` set (highlights_db (reg w))"
      by (simp add: map_of_eq_None_iff)
    then show ?thesis by (force simp: filter_id_conv)
  qed
  show ?thesis
    using 1 2 3 absent
    by (auto simp: delete_highlight_def delete_as_filter)
qed

lemma delete_highlights_ok:
  "fst (delete_highlights hs w) = None
     \<and> highlights_db (reg (snd (delete_highlights hs w)))
         = filter (\<lambda>kh. fst kh \<notin> h_id ` set hs) (highlights_db (reg w))
     \<and> videos_db (reg (snd (delete_highlights hs w))) = videos_db (reg w)
     \<and> content_plans_db (reg (snd (delete_highlights hs w))) = content_plans_db (reg w)
     \<and> processing_status_db (reg (snd (delete_highlights hs w)))
         = processing_status_db (reg w)"
proof (induction hs arbitrary: w)
  case Nil
  show ?case by simp
next
  case (Cons h hs)
  obtain w1 where one: "delete_highlight h w = (None, w1)"
    using delete_highlight_ok [of h w] by (cases "delete_highlight h w") auto
  from delete_highlight_ok [of h w] one have w1:
    "highlights_db (reg w1) = filter (\<lambda>kh. fst kh \<noteq> h_id h) (highlights_db (reg w))"
    "videos_db (reg w1) = videos_db (reg w)"
    "content_plans_db (reg w1) = content_plans_db (reg w)"
    "processing_status_db (reg w1) = processing_status_db (reg w)"
    by simp_all
  have comb: "filter (\<lambda>kh. fst kh \<notin> h_id ` set hs)
        (filter (\<lambda>kh. fst kh \<noteq> h_id h) (highlights_db (reg w)))
      = filter (\<lambda>kh. fst kh \<notin> h_id ` set (h # hs)) (highlights_db (reg w))"
    by (auto intro: filter_cong)
  from Cons.IH [of w1] one w1 comb show ?case by simp
qed

lemma wf_filter_job:
  assumes "wf_highlights r"
  shows "filter (\<lambda>kh. fst kh \<notin> h_id ` set (highlights_of r vid)) (highlights_db r)
     = filter (\<lambda>kh. h_video_id (snd kh) \<noteq> vid) (highlights_db r)"
proof (rule filter_cong [OF refl])
  fix kh assume mem: "kh \<in> set (highlights_db r)"
  obtain k h where kh: "kh = (k, h)" by (cases kh)
  from assms have dist: "distinct (map fst (highlights_db r))"
    and ids: "\<And>k h. (k, h) \<in> set (highlights_db r) \<Longrightarrow> h_id h = k"
    by (auto simp: wf_highlights_def list_all_iff)
  show "(fst kh \<notin> h_id ` set (highlights_of r vid)) = (h_video_id (snd kh) \<noteq> vid)"
  proof
    assume notin: "fst kh \<notin> h_id ` set (highlights_of r vid)"
    show "h_video_id (snd kh) \<noteq> vid"
    proof
      assume "h_video_id (snd kh) = vid"
      with mem kh have "h \<in> set (highlights_of r vid)"
        by (force simp: highlights_of_def)
      moreover from ids mem kh have "h_id h = k" by simp
      ultimately show False using notin kh by force
    qed
  next
    assume other: "h_video_id (snd kh) \<noteq> vid"
    show "fst kh \<notin> h_id ` set (highlights_of r vid)"
    proof
      assume "fst kh \<in> h_id ` set (highlights_of r vid)"
      then obtain k' h' where h': "(k', h') \<in> set (highlights_db r)"
        "h_video_id h' = vid" "h_id h' = k"
        using kh by (auto simp: highlights_of_def)
      from ids [OF h'(1)] h'(3) have "k' = k" by simp
      with h'(1) mem kh dist have "h' = h"
        by (metis eq_key_imp_eq_value)
      with h'(2) other kh show False by simp
    qed
  qed
qed

lemma filter_job_values:
  "filter (\<lambda>h. h_video_id h = other)
       (map snd (filter (\<lambda>kh. h_video_id (snd kh) \<noteq> vid) al))
     = (if other = vid then [] else filter (\<lambda>h. h_video_id h = other) (map snd al))"
  by (induction al) auto

lemma highlights_of_filter:
  "highlights_db r' = filter (\<lambda>kh. h_video_id (snd kh) \<noteq> vid) (highlights_db r) \<Longrightarrow>
     highlights_of r' other = (if other = vid then [] else highlights_of r other)"
  by (simp add: highlights_of_def filter_job_values)

lemma drop_job_simps [simp]:
  "highlights_db (drop_job vid r) = highlights_db r"
  "map_of (videos_db (drop_job vid r)) k = (if k = vid then None else map_of (videos_db r) k)"
  "map_of (content_plans_db (drop_job vid r)) k
     = (if k = vid then None else map_of (content_plans_db r) k)"
  "map_of (processing_status_db (drop_job vid r)) k
     = (if k = vid then None else map_of (processing_status_db r) k)"
  by (auto simp: drop_job_def Let_def delete_conv')

lemma delete_video_present:
  assumes job: "map_of (videos_db (reg w)) vid \<noteq> None"
  shows "fst (delete_video w vid) = Inr ''Video deleted successfully''
     \<and> highlights_db (reg (snd (delete_video w vid)))
         = filter (\<lambda>kh. fst kh \<notin> h_id ` set (highlights_of (reg w) vid))
             (highlights_db (reg w))
     \<and> (\<forall>k. map_of (videos_db (reg (snd (delete_video w vid)))) k
             = (if k = vid then None else map_of (videos_db (reg w)) k))
     \<and> (\<forall>k. map_of (content_plans_db (reg (snd (delete_video w vid)))) k
             = (if k = vid then None else map_of (content_plans_db (reg w)) k))
     \<and> (\<forall>k. map_of (processing_status_db (reg (snd (delete_video w vid)))) k
             = (if k = vid then None else map_of (processing_status_db (reg w)) k))"
proof -
  from job obtain video where v: "map_of (videos_db (reg w)) vid = Some video" by auto
  obtain w1 where 1: "remove_if_exists (vm_upload_path video) w = (None, w1)" "reg w1 = reg w"
    using remove_if_exists_ok [of "vm_upload_path video" w]
    by (cases "remove_if_exists (vm_upload_path video) w") auto
  let ?hs = "highlights_of (reg w) vid"
  obtain w2 where 2: "delete_highlights ?hs w1 = (None, w2)"
    using delete_highlights_ok [of ?hs w1] by (cases "delete_highlights ?hs w1") auto
  from delete_highlights_ok [of ?hs w1] 2 1 have w2:
    "highlights_db (reg w2) = filter (\<lambda>kh. fst kh \<notin> h_id ` set ?hs) (highlights_db (reg w))"
    "videos_db (reg w2) = videos_db (reg w)"
    "content_plans_db (reg w2) = content_plans_db (reg w)"
    "processing_status_db (reg w2) = processing_status_db (reg w)"
    by simp_all
  have dv: "delete_video w vid
      = (Inr ''Video deleted successfully'', w2\<lparr>reg := drop_job vid (reg w2)\<rparr>)"
    using v 1 2 by (simp add: delete_video_def)
  show ?thesis
    unfolding dv using w2
    by (simp add: drop_job_def Let_def delete_conv')
qed

lemma delete_video_absent:
  "map_of (videos_db (reg w)) vid = None \<Longrightarrow>
     delete_video w vid = (Inl (not_found ''Video not found''), w)"
  by (simp add: delete_video_def)

text \<open>
  The world of the following witnesses holds two processed Jobs, \<open>id0\<close> and \<open>id3\<close>,
  each with two Highlights.
\<close>

lemma demo_two_done_jobs:
  "map h_id (highlights_of (reg demo_two_done) ''id0'') = [''id1'', ''id2'']
   \<and> map h_id (highlights_of (reg demo_two_done) ''id3'') = [''id4'', ''id5'']
   \<and> map fst (videos_db (reg demo_two_done)) = [''id0'', ''id3'']"
  by code_simp

lemma delete_video_never_uncaught: "fst (delete_video u vid) \<noteq> Inl (Uncaught e)"
proof (cases "map_of (videos_db (reg u)) vid = None")
  case True
  then show ?thesis by (simp add: delete_video_absent not_found_def)
next
  case False
  from delete_video_present [OF this] show ?thesis by simp
qed

text \<open>
  Claim C4. In a registry that files every Highlight under its own identifier, deleting
  a Job that is in \<open>videos_db\<close> succeeds whatever files exist on disk (also when the
  artifact files have been removed before, as with \<open>F\<close> empty). Afterwards no
  Highlight of the Job is left, its ContentPlan, its ProcessingStatusRecord and the Job
  itself are gone, and Fetch Highlights and Fetch ContentPlan for the identifier answer
  NotFound. Deleting is idempotent: a second deletion of the same Job changes nothing
  and is answered NotFound, the answer of the interface for an unknown identifier; and
  in no world does an exception escape \<open>delete_video\<close> (its answer is never
  \<open>Uncaught\<close>), so neither a repeated deletion nor missing files make it raise.
\<close>

theorem delete_video_cascade:
  assumes wf: "wf_highlights (reg w)"
    and job: "map_of (videos_db (reg w)) vid \<noteq> None"
  shows "fst (delete_video w vid) = Inr ''Video deleted successfully''
     \<and> fst (delete_video (w\<lparr>files := F\<rparr>) vid) = Inr ''Video deleted successfully''
     \<and> highlights_of (reg (snd (delete_video w vid))) vid = []
     \<and> list_all (\<lambda>kh. h_video_id (snd kh) \<noteq> vid)
          (highlights_db (reg (snd (delete_video w vid))))
     \<and> map_of (content_plans_db (reg (snd (delete_video w vid)))) vid = None
     \<and> map_of (processing_status_db (reg (snd (delete_video w vid)))) vid = None
     \<and> map_of (videos_db (reg (snd (delete_video w vid)))) vid = None
     \<and> get_highlights (snd (delete_video w vid)) vid = Inl (not_found ''Video not found'')
     \<and> get_content_plan (snd (delete_video w vid)) vid = Inl (not_found ''Video not found'')
     \<and> delete_video (snd (delete_video w vid)) vid
         = (Inl (not_found ''Video not found''), snd (delete_video w vid))
     \<and> (\<forall>u e. fst (delete_video u vid) \<noteq> Inl (Uncaught e))"
proof -
  let ?w' = "snd (delete_video w vid)"
  note p = delete_video_present [OF job]
  have hdb: "highlights_db (reg ?w')
      = filter (\<lambda>kh. h_video_id (snd kh) \<noteq> vid) (highlights_db (reg w))"
    using p wf_filter_job [OF wf, of vid] by simp
  have gone: "map_of (videos_db (reg ?w')) vid = None"
    "map_of (content_plans_db (reg ?w')) vid = None"
    "map_of (processing_status_db (reg ?w')) vid = None"
    using p by simp_all
  have "map_of (videos_db (reg (w\<lparr>files := F\<rparr>))) vid \<noteq> None"
    using job by simp
  from delete_video_present [OF this]
  have anyfiles: "fst (delete_video (w\<lparr>files := F\<rparr>) vid) = Inr ''Video deleted successfully''"
    by simp
  have none: "highlights_of (reg ?w') vid = []"
    using highlights_of_filter [OF hdb, of vid] by simp
  have all: "list_all (\<lambda>kh. h_video_id (snd kh) \<noteq> vid) (highlights_db (reg ?w'))"
    by (simp add: hdb list_all_iff)
  show ?thesis
    using p gone anyfiles none all
    by (simp add: get_highlights_def get_content_plan_def delete_video_absent
          delete_video_never_uncaught)
qed

theorem delete_video_cascade_witness:
  "fst (delete_video demo_two_done ''id0'') = Inr ''Video deleted successfully''
     \<and> fst (delete_video (demo_two_done\<lparr>files := {}\<rparr>) ''id0'')
         = Inr ''Video deleted successfully''
     \<and> highlights_of (reg (snd (delete_video demo_two_done ''id0''))) ''id0'' = []
     \<and> list_all (\<lambda>kh. h_video_id (snd kh) \<noteq> ''id0'')
          (highlights_db (reg (snd (delete_video demo_two_done ''id0''))))
     \<and> map_of (content_plans_db (reg (snd (delete_video demo_two_done ''id0''))))
          ''id0'' = None
     \<and> map_of (processing_status_db (reg (snd (delete_video demo_two_done ''id0''))))
          ''id0'' = None
     \<and> map_of (videos_db (reg (snd (delete_video demo_two_done ''id0'')))) ''id0'' = None
     \<and> get_highlights (snd (delete_video demo_two_done ''id0'')) ''id0''
         = Inl (not_found ''Video not found'')
     \<and> get_content_plan (snd (delete_video demo_two_done ''id0'')) ''id0''
         = Inl (not_found ''Video not found'')
     \<and> delete_video (snd (delete_video demo_two_done ''id0'')) ''id0''
         = (Inl (not_found ''Video not found''), snd (delete_video demo_two_done ''id0''))
     \<and> (\<forall>u e. fst (delete_video u ''id0'') \<noteq> Inl (Uncaught e))"
proof -
  have 1: "wf_highlights (reg demo_two_done)" by code_simp
  have 2: "map_of (videos_db (reg demo_two_done)) ''id0'' \<noteq> None" by code_simp
  show ?thesis by (rule delete_video_cascade [OF 1 2])
qed

text \<open>
  Claim C10. In a registry that files every Highlight under its own identifier, deleting
  a Job leaves every other Job identifier as it was: its entry in \<open>videos_db\<close>, its
  Highlights (the list a fetch returns, in order), its ContentPlan and its
  ProcessingStatusRecord are unchanged, and so are the answers of the four fetch
  operations for it. This holds whether or not the deleted identifier was known.
\<close>

theorem delete_video_frame:
  assumes wf: "wf_highlights (reg w)"
    and other: "other \<noteq> vid"
  shows "map_of (videos_db (reg (snd (delete_video w vid)))) other
           = map_of (videos_db (reg w)) other
     \<and> highlights_of (reg (snd (delete_video w vid))) other = highlights_of (reg w) other
     \<and> map_of (content_plans_db (reg (snd (delete_video w vid)))) other
           = map_of (content_plans_db (reg w)) other
     \<and> map_of (processing_status_db (reg (snd (delete_video w vid)))) other
           = map_of (processing_status_db (reg w)) other
     \<and> get_video (snd (delete_video w vid)) other = get_video w other
     \<and> get_highlights (snd (delete_video w vid)) other = get_highlights w other
     \<and> get_content_plan (snd (delete_video w vid)) other = get_content_plan w other
     \<and> get_processing_status (snd (delete_video w vid)) other
           = get_processing_status w other"
proof (cases "map_of (videos_db (reg w)) vid = None")
  case True
  then show ?thesis by (simp add: delete_video_absent)
next
  case False
  let ?w' = "snd (delete_video w vid)"
  note p = delete_video_present [OF False]
  have hdb: "highlights_db (reg ?w')
      = filter (\<lambda>kh. h_video_id (snd kh) \<noteq> vid) (highlights_db (reg w))"
    using p wf_filter_job [OF wf, of vid] by simp
  have hs: "highlights_of (reg ?w') other = highlights_of (reg w) other"
    using highlights_of_filter [OF hdb, of other] other by simp
  show ?thesis
    using p hs other
    by (simp add: get_video_def get_highlights_def get_content_plan_def
          get_processing_status_def)
qed

theorem delete_video_frame_witness:
  "map_of (videos_db (reg (snd (delete_video demo_two_done ''id0'')))) ''id3''
           = map_of (videos_db (reg demo_two_done)) ''id3''
     \<and> highlights_of (reg (snd (delete_video demo_two_done ''id0''))) ''id3''
           = highlights_of (reg demo_two_done) ''id3''
     \<and> map_of (content_plans_db (reg (snd (delete_video demo_two_done ''id0'')))) ''id3''
           = map_of (content_plans_db (reg demo_two_done)) ''id3''
     \<and> map_of (processing_status_db (reg (snd (delete_video demo_two_done ''id0''))))
           ''id3''
           = map_of (processing_status_db (reg demo_two_done)) ''id3''
     \<and> get_video (snd (delete_video demo_two_done ''id0'')) ''id3''
           = get_video demo_two_done ''id3''
     \<and> get_highlights (snd (delete_video demo_two_done ''id0'')) ''id3''
           = get_highlights demo_two_done ''id3''
     \<and> get_content_plan (snd (delete_video demo_two_done ''id0'')) ''id3''
           = get_content_plan demo_two_done ''id3''
     \<and> get_processing_status (snd (delete_video demo_two_done ''id0'')) ''id3''
           = get_processing_status demo_two_done ''id3''"
proof -
  have 1: "wf_highlights (reg demo_two_done)" by code_simp
  have 2: "''id3'' \<noteq> ''id0''" by simp
  show ?thesis by (rule delete_video_frame [OF 1 2])
qed

section \<open>The registry invariant is maintained\<close>

text \<open>
  The hypothesis of the two deletion theorems holds of the empty registry and is kept
  by every operation that writes the registry: submission, the background task, and
  deletion.
\<close>

lemma wf_highlights_empty: "wf_highlights (reg empty_world)"
  by (simp add: wf_highlights_def empty_world_def empty_registry_def)

lemma wf_highlights_cong:
  "highlights_db r' = highlights_db r \<Longrightarrow> wf_highlights r' = wf_highlights r"
  by (simp add: wf_highlights_def)

lemma wf_highlights_upload:
  "wf_highlights (reg (snd (upload_video caps ct fn t d w))) = wf_highlights (reg w)"
  by (rule wf_highlights_cong)
     (simp add: upload_video_def Let_def split: option.splits)

lemma wf_highlights_update:
  assumes "wf_highlights r" and "h_id h = k"
  shows "wf_highlights (r\<lparr>highlights_db := AList.update k h (highlights_db r)\<rparr>)"
proof -
  from assms have "distinct (map fst (AList.update k h (highlights_db r)))"
    by (simp add: wf_highlights_def distinct_update)
  moreover from assms set_update_subset [of k h "highlights_db r"]
  have "list_all (\<lambda>kh. h_id (snd kh) = fst kh) (AList.update k h (highlights_db r))"
    by (auto simp: wf_highlights_def list_all_iff)
  ultimately show ?thesis by (simp add: wf_highlights_def)
qed

lemma extract_one_registers:
  assumes "extract_one caps vid i m w = (Inr h, w')"
  shows "highlights_db (reg w') = AList.update (h_id h) h (highlights_db (reg w))"
  using assms
  by (auto simp: extract_one_def extract_clip_def extract_thumbnail_def Let_def
        split: option.splits sum.splits prod.splits)

lemma wf_highlights_extract_one:
  assumes "wf_highlights (reg w)"
  shows "wf_highlights (reg (snd (extract_one caps vid i m w)))"
proof -
  obtain r w' where one: "extract_one caps vid i m w = (r, w')"
    by (cases "extract_one caps vid i m w")
  show ?thesis
  proof (cases r)
    case (Inl e)
    with one extract_one_Inl [of caps vid i m w e w'] assms show ?thesis
      by (simp add: wf_highlights_def)
  next
    case (Inr h)
    with one have "highlights_db (reg w') = AList.update (h_id h) h (highlights_db (reg w))"
      by (simp add: extract_one_registers)
    with wf_highlights_update [OF assms refl, of h] one show ?thesis
      by (simp add: wf_highlights_def)
  qed
qed

lemma wf_highlights_extract_loop:
  "wf_highlights (reg w) \<Longrightarrow> wf_highlights (reg (snd (extract_loop caps vid i ms acc w)))"
proof (induction ms arbitrary: i acc w)
  case Nil
  then show ?case by simp
next
  case (Cons m ms)
  obtain r1 w1 where one: "extract_one caps vid i m w = (r1, w1)"
    by (cases "extract_one caps vid i m w")
  from wf_highlights_extract_one [OF Cons.prems, of caps vid i m] one
  have wf1: "wf_highlights (reg w1)" by simp
  show ?case
  proof (cases r1)
    case (Inl e)
    with one wf1 show ?thesis by simp
  next
    case (Inr h)
    with one Cons.IH [OF wf1] show ?thesis by simp
  qed
qed

lemma plan_stage_highlights:
  "highlights_db (reg (snd (plan_stage caps vid hs w))) = highlights_db (reg w)"
proof -
  obtain r w1 where g: "generate_content_plan caps hs w = (r, w1)"
    by (cases "generate_content_plan caps hs w")
  have "w1 = (if hs = [] then w else log_call (PlanInference hs) w)"
    using generate_content_plan_world [of caps hs w] g by simp
  then have "reg w1 = reg w" by auto
  with g show ?thesis
    by (auto simp: plan_stage_def Let_def update_video_def split: sum.splits option.splits)
qed

lemma wf_highlights_extraction_stage:
  assumes "wf_highlights (reg w)"
  shows "wf_highlights (reg (snd (extraction_stage caps vid analysis w)))"
proof -
  let ?ms = "case analysis of None \<Rightarrow> [] | Some ms \<Rightarrow> ms"
  obtain r w1 where l: "extract_loop caps vid 0 ?ms [] w = (r, w1)"
    by (cases "extract_loop caps vid 0 ?ms [] w")
  from wf_highlights_extract_loop [OF assms, of caps vid 0 ?ms "[]"] l
  have wf1: "wf_highlights (reg w1)" by simp
  show ?thesis
  proof (cases r)
    case (Inl e)
    with l wf1 show ?thesis by (simp add: extraction_stage_def)
  next
    case (Inr clips)
    with l have "extraction_stage caps vid analysis w =
        plan_stage caps vid clips (set_status vid ''GENERATING_CONTENT_PLAN'' w1)"
      by (simp add: extraction_stage_def)
    with wf1 show ?thesis
      by (simp add: wf_highlights_def plan_stage_highlights)
  qed
qed

lemma wf_highlights_process_video:
  assumes "wf_highlights (reg w)"
  shows "wf_highlights (reg (snd (process_video caps vid path w)))"
proof -
  have an: "wf_highlights (reg (snd (analysis_stage caps vid path u)))"
    if "wf_highlights (reg u)" for u
    using that wf_highlights_extraction_stage
    by (auto simp: analysis_stage_def Let_def wf_highlights_def split: sum.splits)
  have me: "wf_highlights (reg (snd (metadata_stage caps vid path u)))"
    if "wf_highlights (reg u)" for u
  proof -
    have "wf_highlights (reg (snd (analysis_stage caps vid path (set_status vid ''ANALYZING'' u'))))"
      if "highlights_db (reg u') = highlights_db (reg u)" for u'
      using that \<open>wf_highlights (reg u)\<close> by (intro an) (simp add: wf_highlights_def)
    with that show ?thesis
      by (auto simp: metadata_stage_def VideoProcessor_init_def update_video_def
            wf_highlights_def split: sum.splits option.splits if_splits)
  qed
  have tb: "wf_highlights (reg (snd (try_block caps vid path w)))"
    unfolding try_block_def using assms by (intro me) (simp add: wf_highlights_def)
  then show ?thesis
    by (auto simp: process_video_def update_video_def wf_highlights_def
          split: prod.splits option.splits sum.splits)
qed

lemma wf_highlights_delete_video:
  assumes "wf_highlights (reg w)"
  shows "wf_highlights (reg (snd (delete_video w vid)))"
proof (cases "map_of (videos_db (reg w)) vid = None")
  case True
  with assms show ?thesis by (simp add: delete_video_absent)
next
  case False
  from delete_video_present [OF False] assms show ?thesis
    by (simp add: wf_highlights_def distinct_map_filter list_all_iff)
qed

end
